theory Spec2Isabelle
  imports Main "HOL-Library.Word" "HOL-Library.Signed_Division"
begin

section \<open>Machine arithmetic of the fixed-point core\<close>

text \<open>
  The firmware computes on signed 16- and 32-bit integers and unsigned 8- and 16-bit
  integers.  They are machine words here: addition, subtraction and multiplication wrap
  around, \<open>scast\<close> sign-extends or narrows a signed value, \<open>ucast\<close> zero-extends an
  unsigned one, \<open>a <s b\<close> and \<open>a \<le>s b\<close> compare signed, \<open>a < b\<close> and \<open>a \<le> b\<close>
  compare unsigned, \<open>signed_drop_bit\<close> is the arithmetic right shift \<open>>>\<close> of the target
  and \<open>push_bit\<close> the left shift.  Signedness lives in the operations, so the signed and
  the unsigned type of one width share a type.
\<close>

type_synonym int16_t = "16 word"
type_synonym uint16_t = "16 word"
type_synonym int32_t = "32 word"
type_synonym uint8_t = "8 word"

text \<open>The operator \<open>/\<close> of C on \<open>int32_t\<close>: the quotient is truncated towards zero.\<close>

definition c_div :: "int32_t \<Rightarrow> int32_t \<Rightarrow> int32_t" where
  "c_div a b = word_of_int (sint a sdiv sint b)"

text \<open>
  The dual arithmetic path, written in the source at every decimation as
  \<^verbatim>\<open>#ifdef FULL_MISRA_C_COMPLIANCY  x / d  #else  x >> n  #endif\<close>.
  The compile-time macro is the Boolean \<open>misra\<close>.
\<close>

definition div_or_shift :: "bool \<Rightarrow> int32_t \<Rightarrow> int32_t \<Rightarrow> nat \<Rightarrow> int32_t" where
  "div_or_shift misra x d n = (if misra then c_div x d else signed_drop_bit n x)"

text \<open>The macro \<open>SATURATION_TO_S16\<close> of feed_forward_ctrl.c.\<close>

definition SATURATION_TO_S16 :: "int32_t \<Rightarrow> int32_t" where
  "SATURATION_TO_S16 a = (if 32767 <s a then 32767 else if a <s - 32767 then - 32767 else a)"

section \<open>Data model\<close>

text \<open>
  The handle types are declared in headers that are not part of the sources at hand.
  Each record lists the fields the source files read or write; widths and signedness
  follow the casts of the source and the prefixes of the names (\<open>h\<close> 16 bit, \<open>w\<close> 32 bit,
  \<open>b\<close> 8 bit).  The PI regulator, the trigonometric table, the speed-feedback base class
  and the bus-voltage sensor are collaborators outside the sources: their handles are
  type parameters and their functions are arguments of the operations that call them.
\<close>

record Volt_Components =
  qV_Component1 :: int16_t
  qV_Component2 :: int16_t

record Curr_Components =
  qI_Component1 :: int16_t
  qI_Component2 :: int16_t

record Trig_Components =
  hCos :: int16_t
  hSin :: int16_t

text \<open>Modelled from the spec: the bus voltage of the observer inputs is an s16.\<close>

record Observer_Inputs_t =
  Valfa_beta :: Volt_Components
  Ialfa_beta :: Curr_Components
  Vbus :: int16_t

record SpeednPosFdbk_Handle_t =
  hElAngle :: int16_t
  hElSpeedDpp :: int16_t
  hAvrMecSpeed01Hz :: int16_t
  hMecAccel01HzP :: int16_t
  bSpeedErrorNumber :: uint8_t
  bMaximumSpeedErrorsNumber :: uint8_t
  hMeasurementFrequency :: uint16_t
  bElToMecRatio :: uint8_t
  hMaxReliableMecSpeed01Hz :: uint16_t

record 'pid STO_Handle_t =
  Super :: SpeednPosFdbk_Handle_t
  hC1 :: int16_t
  hC2 :: int16_t
  hC3 :: int16_t
  hC4 :: int16_t
  hC5 :: int16_t
  hC6 :: int16_t
  hF1 :: int16_t
  hF2 :: int16_t
  hF3 :: int16_t
  F3POW2 :: uint16_t
  PIRegulator :: 'pid
  Ialfa_est :: int32_t
  Ibeta_est :: int32_t
  wBemf_alfa_est :: int32_t
  wBemf_beta_est :: int32_t
  hBemf_alfa_est :: int16_t
  hBemf_beta_est :: int16_t
  Speed_Buffer :: "int16_t list"
  Speed_Buffer_Index :: uint8_t
  IsSpeedReliable :: bool
  ConsistencyCounter :: uint8_t
  ReliabilityCounter :: uint8_t
  IsAlgorithmConverged :: bool
  IsBemfConsistent :: bool
  Obs_Bemf_Level :: int32_t
  Est_Bemf_Level :: int32_t
  EnableDualCheck :: bool
  DppBufferSum :: int32_t
  SpeedBufferOldestEl :: int16_t
  SpeedBufferSize01Hz :: uint8_t
  SpeedBufferSizedpp :: uint8_t
  VariancePercentage :: uint16_t
  SpeedValidationBand_H :: uint8_t
  SpeedValidationBand_L :: uint8_t
  MinStartUpValidSpeed :: uint16_t
  StartUpConsistThreshold :: uint8_t
  Reliability_hysteresys :: uint8_t
  BemfConsistencyCheck :: uint8_t
  BemfConsistencyGain :: uint8_t
  MaxAppPositiveMecSpeed01Hz :: uint16_t
  F1LOG :: uint16_t
  F2LOG :: uint16_t
  SpeedBufferSizedppLOG :: uint16_t
  ForceConvergency :: bool
  ForceConvergency2 :: bool

text \<open>
  The feed-forward handle.  \<open>hVqdLowPassFilterBW\<close> is the bandwidth the division form
  reads through \<open>pParams_str\<close>; \<open>pBus_Sensor\<close>, \<open>pPID_d\<close> and \<open>pPID_q\<close> are the handles
  stored by \<open>FF_Init\<close>.
\<close>

record ('bus, 'pidp) FF_Handle_t =
  Vqdff :: Volt_Components
  VqdPIout :: Volt_Components
  VqdAvPIout :: Volt_Components
  wConstant_1D :: int32_t
  wConstant_1Q :: int32_t
  wConstant_2 :: int32_t
  pBus_Sensor :: 'bus
  pPID_q :: 'pidp
  pPID_d :: 'pidp
  hVqdLowPassFilterBW :: uint16_t
  wDefConstant_1D :: int32_t
  wDefConstant_1Q :: int32_t
  wDefConstant_2 :: int32_t
  hVqdLowPassFilterBWLOG :: uint16_t

section \<open>State observer and PLL (sto_speed_pos_fdbk.c)\<close>

text \<open>
  \<open>STO_InitSpeedBuffer\<close>: the loop over \<open>b_i < bSpeedBufferSize01Hz\<close> zeroes the first
  \<open>SpeedBufferSize01Hz\<close> entries.
\<close>

definition STO_InitSpeedBuffer :: "'pid STO_Handle_t \<Rightarrow> 'pid STO_Handle_t" where
  "STO_InitSpeedBuffer h =
     h\<lparr>Speed_Buffer := fold (\<lambda>b_i buf. buf[b_i := 0]) [0..<unat (SpeedBufferSize01Hz h)] (Speed_Buffer h),
       Speed_Buffer_Index := 0,
       SpeedBufferOldestEl := 0\<rparr>"

text \<open>\<open>STO_Clear\<close>; \<open>PID_SetIntegralTerm\<close> belongs to the PI regulator.\<close>

definition STO_Clear :: "('pid \<Rightarrow> int32_t \<Rightarrow> 'pid) \<Rightarrow> 'pid STO_Handle_t \<Rightarrow> 'pid STO_Handle_t" where
  "STO_Clear PID_SetIntegralTerm h =
     (let h = h\<lparr>Ialfa_est := 0, Ibeta_est := 0, wBemf_alfa_est := 0, wBemf_beta_est := 0\<rparr>;
          h = h\<lparr>Super := (Super h)\<lparr>hElAngle := 0, hElSpeedDpp := 0\<rparr>\<rparr>;
          h = h\<lparr>ConsistencyCounter := 0, ReliabilityCounter := 0,
                IsAlgorithmConverged := False, IsBemfConsistent := False,
                Obs_Bemf_Level := 0, Est_Bemf_Level := 0, DppBufferSum := 0,
                ForceConvergency := False, ForceConvergency2 := False\<rparr>;
          h = STO_InitSpeedBuffer h
      in h\<lparr>PIRegulator := PID_SetIntegralTerm (PIRegulator h) 0\<rparr>)"

text \<open>\<open>STO_Store_Rotor_Speed\<close>: the push into the circular speed buffer.\<close>

definition STO_Store_Rotor_Speed :: "'pid STO_Handle_t \<Rightarrow> int16_t \<Rightarrow> 'pid STO_Handle_t" where
  "STO_Store_Rotor_Speed h hRotor_Speed =
     (let bBuffer_index = Speed_Buffer_Index h + 1;
          bBuffer_index = (if bBuffer_index = SpeedBufferSize01Hz h then 0 else bBuffer_index)
      in h\<lparr>SpeedBufferOldestEl := Speed_Buffer h ! unat bBuffer_index,
            Speed_Buffer := (Speed_Buffer h)[unat bBuffer_index := hRotor_Speed],
            Speed_Buffer_Index := bBuffer_index\<rparr>)"

text \<open>
  \<open>STO_ExecutePLL\<close>.  \<open>STO_ExecutePLL_error\<close> is the value the function passes to
  \<open>PI_Controller\<close>; \<open>MCM_Trig_Functions\<close> and \<open>PI_Controller\<close> are the collaborators.
\<close>

definition STO_ExecutePLL_error ::
  "bool \<Rightarrow> (int16_t \<Rightarrow> Trig_Components) \<Rightarrow> 'pid STO_Handle_t \<Rightarrow> int16_t \<Rightarrow> int16_t \<Rightarrow> int32_t" where
  "STO_ExecutePLL_error misra MCM_Trig_Functions h hBemf_alfa hBemf_beta =
     (let Local_Components = MCM_Trig_Functions (hElAngle (Super h));
          wAlfa_Sin_tmp = scast hBemf_alfa * scast (hSin Local_Components);
          wBeta_Cos_tmp = scast hBemf_beta * scast (hCos Local_Components);
          hAux1 = (scast (div_or_shift misra wBeta_Cos_tmp 32768 15) :: int16_t);
          hAux2 = (scast (div_or_shift misra wAlfa_Sin_tmp 32768 15) :: int16_t)
      in scast hAux1 - scast hAux2)"

definition STO_ExecutePLL ::
  "bool \<Rightarrow> (int16_t \<Rightarrow> Trig_Components) \<Rightarrow> ('pid \<Rightarrow> int32_t \<Rightarrow> int16_t \<times> 'pid) \<Rightarrow>
   'pid STO_Handle_t \<Rightarrow> int16_t \<Rightarrow> int16_t \<Rightarrow> int16_t \<times> 'pid STO_Handle_t" where
  "STO_ExecutePLL misra MCM_Trig_Functions PI_Controller h hBemf_alfa hBemf_beta =
     (let (hOutput, pid) = PI_Controller (PIRegulator h)
                             (STO_ExecutePLL_error misra MCM_Trig_Functions h hBemf_alfa hBemf_beta)
      in (hOutput, h\<lparr>PIRegulator := pid\<rparr>))"

text \<open>
  \<open>STO_CalcElAngle\<close>, first part (lines 160 to 216): the four stored estimates are
  clamped in place, and the s16 back-EMF values \<open>hAux_Alfa\<close> and \<open>hAux_Beta\<close> are taken
  from the clamped ones.
\<close>

definition STO_CalcElAngle_clamp ::
  "bool \<Rightarrow> 'pid STO_Handle_t \<Rightarrow> 'pid STO_Handle_t \<times> int16_t \<times> int16_t" where
  "STO_CalcElAngle_clamp misra h =
     (let h = (if scast (hF2 h) * 32767 <s wBemf_alfa_est h
               then h\<lparr>wBemf_alfa_est := 32767 * scast (hF2 h)\<rparr>
               else if wBemf_alfa_est h \<le>s - 32767 * scast (hF2 h)
               then h\<lparr>wBemf_alfa_est := - 32767 * scast (hF2 h)\<rparr>
               else h);
          hAux_Alfa = (scast (div_or_shift misra (wBemf_alfa_est h) (scast (hF2 h)) (unat (F2LOG h))) :: int16_t);
          h = (if 32767 * scast (hF2 h) <s wBemf_beta_est h
               then h\<lparr>wBemf_beta_est := 32767 * scast (hF2 h)\<rparr>
               else if wBemf_beta_est h \<le>s - 32767 * scast (hF2 h)
               then h\<lparr>wBemf_beta_est := - 32767 * scast (hF2 h)\<rparr>
               else h);
          hAux_Beta = (scast (div_or_shift misra (wBemf_beta_est h) (scast (hF2 h)) (unat (F2LOG h))) :: int16_t);
          h = (if 32767 * scast (hF1 h) <s Ialfa_est h
               then h\<lparr>Ialfa_est := 32767 * scast (hF1 h)\<rparr>
               else if Ialfa_est h \<le>s - 32767 * scast (hF1 h)
               then h\<lparr>Ialfa_est := - 32767 * scast (hF1 h)\<rparr>
               else h);
          h = (if 32767 * scast (hF1 h) <s Ibeta_est h
               then h\<lparr>Ibeta_est := 32767 * scast (hF1 h)\<rparr>
               else if Ibeta_est h \<le>s - 32767 * scast (hF1 h)
               then h\<lparr>Ibeta_est := - 32767 * scast (hF1 h)\<rparr>
               else h)
      in (h, hAux_Alfa, hAux_Beta))"

text \<open>
  The s16 back-EMF pair the step hands to \<open>STO_ExecutePLL\<close> (lines 312 to 328): the
  direction is the sign of \<open>hElSpeedDpp\<close>, both values are multiplied by it, and the beta
  value is passed negated.
\<close>

definition STO_CalcElAngle_PLL_args ::
  "'pid STO_Handle_t \<Rightarrow> int16_t \<Rightarrow> int16_t \<Rightarrow> int16_t \<times> int16_t" where
  "STO_CalcElAngle_PLL_args h hAux_Alfa hAux_Beta =
     (let wDirection = (if 0 \<le>s hElSpeedDpp (Super h) then 1 else - 1 :: int32_t);
          hAux_Alfa = (scast (scast hAux_Alfa * wDirection) :: int16_t);
          hAux_Beta = (scast (scast hAux_Beta * wDirection) :: int16_t)
      in (hAux_Alfa, - hAux_Beta))"

text \<open>\<open>STO_CalcElAngle\<close>: returns the new electrical angle and the updated handle.\<close>

definition STO_CalcElAngle ::
  "bool \<Rightarrow> (int16_t \<Rightarrow> Trig_Components) \<Rightarrow> ('pid \<Rightarrow> int32_t \<Rightarrow> int16_t \<times> 'pid) \<Rightarrow>
   'pid STO_Handle_t \<Rightarrow> Observer_Inputs_t \<Rightarrow> int16_t \<times> 'pid STO_Handle_t" where
  "STO_CalcElAngle misra MCM_Trig_Functions PI_Controller h0 pInputs =
     (let (h, hAux_Alfa, hAux_Beta) = STO_CalcElAngle_clamp misra h0;
          hIalfa_err = (scast (div_or_shift misra (Ialfa_est h) (scast (hF1 h)) (unat (F1LOG h))) :: int16_t);
          hIalfa_err = hIalfa_err - qI_Component1 (Ialfa_beta pInputs);
          hIbeta_err = (scast (div_or_shift misra (Ibeta_est h) (scast (hF1 h)) (unat (F1LOG h))) :: int16_t);
          hIbeta_err = hIbeta_err - qI_Component2 (Ialfa_beta pInputs);
          wAux = scast (Vbus pInputs) * scast (qV_Component1 (Valfa_beta pInputs));
          hValfa = (scast (div_or_shift misra wAux 65536 16) :: int16_t);
          wAux = scast (Vbus pInputs) * scast (qV_Component2 (Valfa_beta pInputs));
          hVbeta = (scast (div_or_shift misra wAux 65536 16) :: int16_t);
          hAux = (scast (div_or_shift misra (Ialfa_est h) (scast (hF1 h)) (unat (F1LOG h))) :: int16_t);
          wAux = scast (hC1 h) * scast hAux;
          wIalfa_est_Next = Ialfa_est h - wAux;
          wAux = scast (hC2 h) * scast hIalfa_err;
          wIalfa_est_Next = wIalfa_est_Next + wAux;
          wAux = scast (hC5 h) * scast hValfa;
          wIalfa_est_Next = wIalfa_est_Next + wAux;
          wAux = scast (hC3 h) * scast hAux_Alfa;
          wIalfa_est_Next = wIalfa_est_Next - wAux;
          wAux = scast (hC4 h) * scast hIalfa_err;
          wBemf_alfa_est_Next = wBemf_alfa_est h + wAux;
          wAux = div_or_shift misra (scast hAux_Beta) (scast (hF3 h)) (unat (F3POW2 h));
          wAux = wAux * scast (hC6 h);
          wAux = scast (hElSpeedDpp (Super h)) * wAux;
          wBemf_alfa_est_Next = wBemf_alfa_est_Next + wAux;
          hAux = (scast (div_or_shift misra (Ibeta_est h) (scast (hF1 h)) (unat (F1LOG h))) :: int16_t);
          wAux = scast (hC1 h) * scast hAux;
          wIbeta_est_Next = Ibeta_est h - wAux;
          wAux = scast (hC2 h) * scast hIbeta_err;
          wIbeta_est_Next = wIbeta_est_Next + wAux;
          wAux = scast (hC5 h) * scast hVbeta;
          wIbeta_est_Next = wIbeta_est_Next + wAux;
          wAux = scast (hC3 h) * scast hAux_Beta;
          wIbeta_est_Next = wIbeta_est_Next - wAux;
          wAux = scast (hC4 h) * scast hIbeta_err;
          wBemf_beta_est_Next = wBemf_beta_est h + wAux;
          wAux = div_or_shift misra (scast hAux_Alfa) (scast (hF3 h)) (unat (F3POW2 h));
          wAux = wAux * scast (hC6 h);
          wAux = scast (hElSpeedDpp (Super h)) * wAux;
          wBemf_beta_est_Next = wBemf_beta_est_Next - wAux;
          h = h\<lparr>hBemf_alfa_est := hAux_Alfa, hBemf_beta_est := hAux_Beta\<rparr>;
          (hAux_Alfa, hAux_Beta_neg) = STO_CalcElAngle_PLL_args h hAux_Alfa hAux_Beta;
          (hRotor_Speed, h) = STO_ExecutePLL misra MCM_Trig_Functions PI_Controller h hAux_Alfa hAux_Beta_neg;
          h = STO_Store_Rotor_Speed h hRotor_Speed;
          h = h\<lparr>Super := (Super h)\<lparr>hElAngle := hElAngle (Super h) + hRotor_Speed\<rparr>\<rparr>;
          h = h\<lparr>Ialfa_est := wIalfa_est_Next, wBemf_alfa_est := wBemf_alfa_est_Next,
                Ibeta_est := wIbeta_est_Next, wBemf_beta_est := wBemf_beta_est_Next\<rparr>
      in (hElAngle (Super h), h))"

text \<open>
  The error \<open>STO_CalcElAngle\<close> feeds to the PI regulator of the PLL: the clamp, the
  published s16 back-EMF pair, the sign correction and the projection of
  \<open>STO_ExecutePLL\<close>, in the order of the step.
\<close>

definition STO_CalcElAngle_PLL_error ::
  "bool \<Rightarrow> (int16_t \<Rightarrow> Trig_Components) \<Rightarrow> 'pid STO_Handle_t \<Rightarrow> int32_t" where
  "STO_CalcElAngle_PLL_error misra MCM_Trig_Functions h0 =
     (let (h, hAux_Alfa, hAux_Beta) = STO_CalcElAngle_clamp misra h0;
          h = h\<lparr>hBemf_alfa_est := hAux_Alfa, hBemf_beta_est := hAux_Beta\<rparr>;
          (hAux_Alfa, hAux_Beta_neg) = STO_CalcElAngle_PLL_args h hAux_Alfa hAux_Beta
      in STO_ExecutePLL_error misra MCM_Trig_Functions h hAux_Alfa hAux_Beta_neg)"

text \<open>\<open>STO_CalcAvrgElSpeedDpp\<close>: the rolling sum and the published average speed.\<close>

definition STO_CalcAvrgElSpeedDpp :: "bool \<Rightarrow> 'pid STO_Handle_t \<Rightarrow> 'pid STO_Handle_t" where
  "STO_CalcAvrgElSpeedDpp misra h =
     (let hIndexNew = (ucast (Speed_Buffer_Index h) :: int16_t);
          wSum = DppBufferSum h;
          hSpeedBufferSizedpp = (ucast (SpeedBufferSizedpp h) :: int16_t);
          hSpeedBufferSize01Hz = (ucast (SpeedBufferSize01Hz h) :: int16_t);
          hBufferSizeDiff = hSpeedBufferSize01Hz - hSpeedBufferSizedpp;
          wSum = (if hBufferSizeDiff = 0
                  then wSum + scast (Speed_Buffer h ! unat hIndexNew) - scast (SpeedBufferOldestEl h)
                  else (let hIndexOldTemp = hIndexNew + hBufferSizeDiff;
                            hIndexOld = (if hSpeedBufferSize01Hz \<le>s hIndexOldTemp
                                         then hIndexOldTemp - hSpeedBufferSize01Hz
                                         else hIndexOldTemp)
                        in wSum + scast (Speed_Buffer h ! unat hIndexNew)
                                - scast (Speed_Buffer h ! unat hIndexOld)));
          wAvrSpeed_dpp = div_or_shift misra wSum (scast hSpeedBufferSizedpp) (unat (SpeedBufferSizedppLOG h))
      in h\<lparr>Super := (Super h)\<lparr>hElSpeedDpp := scast wAvrSpeed_dpp\<rparr>, DppBufferSum := wSum\<rparr>)"

text \<open>
  \<open>STO_CalcAvrgMecSpeed01Hz\<close>: returns the reliability verdict, the mechanical speed
  written through \<open>pMecSpeed01Hz\<close>, and the updated handle.  \<open>SPD_IsMecSpeedReliable\<close>
  belongs to the speed-feedback base class; it works on the \<open>_Super\<close> part of the handle.
\<close>

definition STO_CalcAvrgMecSpeed01Hz ::
  "(SpeednPosFdbk_Handle_t \<Rightarrow> int16_t \<Rightarrow> bool \<times> SpeednPosFdbk_Handle_t) \<Rightarrow>
   'pid STO_Handle_t \<Rightarrow> bool \<times> int16_t \<times> 'pid STO_Handle_t" where
  "STO_CalcAvrgMecSpeed01Hz SPD_IsMecSpeedReliable h =
     (let bSpeedBufferSize01Hz = SpeedBufferSize01Hz h;
          wAvrSpeed_dpp = fold (\<lambda>i w. w + scast (Speed_Buffer h ! i)) [0..<unat bSpeedBufferSize01Hz] (0 :: int32_t);
          wAvrSpeed_dpp = c_div wAvrSpeed_dpp (scast (ucast bSpeedBufferSize01Hz :: int16_t));
          wAvrQuadraticError =
            fold (\<lambda>i w. (let wError = scast (Speed_Buffer h ! i) - wAvrSpeed_dpp;
                              wError = wError * wError
                          in w + wError)) [0..<unat bSpeedBufferSize01Hz] (0 :: int32_t);
          wAvrQuadraticError = c_div wAvrQuadraticError (scast (ucast bSpeedBufferSize01Hz :: int16_t));
          wAvrSquareSpeed = wAvrSpeed_dpp * wAvrSpeed_dpp;
          wAvrSquareSpeed = c_div wAvrSquareSpeed 128 * ucast (VariancePercentage h);
          bIs_Speed_Reliable = (wAvrQuadraticError <s wAvrSquareSpeed);
          wAux = wAvrSpeed_dpp * ucast (hMeasurementFrequency (Super h));
          wAux = wAux * 10;
          wAux = c_div wAux 65536;
          wAux = c_div wAux (scast (ucast (bElToMecRatio (Super h)) :: int16_t));
          MecSpeed01Hz = (scast wAux :: int16_t);
          h = h\<lparr>Super := (Super h)\<lparr>hAvrMecSpeed01Hz := scast wAux\<rparr>\<rparr>;
          h = h\<lparr>IsSpeedReliable := bIs_Speed_Reliable\<rparr>;
          (bIs_Bemf_Consistent, h) =
            (if EnableDualCheck h
             then (let wAux = (if wAux <s 0 then - wAux else wAux);
                       (bIs_Bemf_Consistent, wObsBemfSq, wEstBemfSq) =
                         (if wAux <s ucast (MaxAppPositiveMecSpeed01Hz h)
                          then (let wObsBemf = (scast (hBemf_alfa_est h) :: int32_t);
                                    wObsBemfSq = wObsBemf * wObsBemf;
                                    wObsBemf = (scast (hBemf_beta_est h) :: int32_t);
                                    wObsBemfSq = wObsBemfSq + wObsBemf * wObsBemf;
                                    wEstBemf = c_div (wAux * 32767) (scast (hMaxReliableMecSpeed01Hz (Super h)));
                                    wEstBemfSq = c_div (wEstBemf * ucast (BemfConsistencyGain h)) 64;
                                    wEstBemfSq = wEstBemfSq * wEstBemf;
                                    wEstBemfSqLo = wEstBemfSq - c_div wEstBemfSq 64 * ucast (BemfConsistencyCheck h)
                                in (wEstBemfSqLo <s wObsBemfSq, wObsBemfSq, wEstBemfSq))
                          else (False, 0, 0))
                   in (bIs_Bemf_Consistent,
                       h\<lparr>IsBemfConsistent := bIs_Bemf_Consistent,
                         Obs_Bemf_Level := wObsBemfSq,
                         Est_Bemf_Level := wEstBemfSq\<rparr>))
             else (True, h));
          (bAux, h) =
            (if \<not> IsAlgorithmConverged h
             then (let (b, super) = SPD_IsMecSpeedReliable (Super h) MecSpeed01Hz in (b, h\<lparr>Super := super\<rparr>))
             else if \<not> IsSpeedReliable h \<or> \<not> bIs_Bemf_Consistent
             then (let h = h\<lparr>ReliabilityCounter := ReliabilityCounter h + 1\<rparr>
                   in if Reliability_hysteresys h \<le> ReliabilityCounter h
                      then (False, h\<lparr>ReliabilityCounter := 0,
                                     Super := (Super h)\<lparr>bSpeedErrorNumber := bMaximumSpeedErrorsNumber (Super h)\<rparr>\<rparr>)
                      else (let (b, super) = SPD_IsMecSpeedReliable (Super h) MecSpeed01Hz in (b, h\<lparr>Super := super\<rparr>)))
             else (let h = h\<lparr>ReliabilityCounter := 0\<rparr>;
                       (b, super) = SPD_IsMecSpeedReliable (Super h) MecSpeed01Hz
                   in (b, h\<lparr>Super := super\<rparr>)))
      in (bAux, MecSpeed01Hz, h))"

text \<open>
  The mechanical speed of \<open>STO_CalcAvrgMecSpeed01Hz\<close> on 32 bits, the local \<open>wAux\<close> before
  it is narrowed into \<open>*pMecSpeed01Hz\<close>: the average of the buffer scaled to 0.1 Hz.
\<close>

definition STO_CalcAvrgMecSpeed01Hz_wAux :: "'pid STO_Handle_t \<Rightarrow> int32_t" where
  "STO_CalcAvrgMecSpeed01Hz_wAux h =
     (let bSpeedBufferSize01Hz = SpeedBufferSize01Hz h;
          wAvrSpeed_dpp = fold (\<lambda>i w. w + scast (Speed_Buffer h ! i)) [0..<unat bSpeedBufferSize01Hz] (0 :: int32_t);
          wAvrSpeed_dpp = c_div wAvrSpeed_dpp (scast (ucast bSpeedBufferSize01Hz :: int16_t));
          wAux = wAvrSpeed_dpp * ucast (hMeasurementFrequency (Super h));
          wAux = wAux * 10;
          wAux = c_div wAux 65536;
          wAux = c_div wAux (scast (ucast (bElToMecRatio (Super h)) :: int16_t))
      in wAux)"

text \<open>\<open>STO_IsObserverConverged\<close>: returns the verdict and the updated handle.\<close>

definition STO_IsObserverConverged :: "'pid STO_Handle_t \<Rightarrow> int16_t \<Rightarrow> bool \<times> 'pid STO_Handle_t" where
  "STO_IsObserverConverged h hForcedMecSpeed01Hz =
     (let hForcedMecSpeed01Hz = (if ForceConvergency2 h then hAvrMecSpeed01Hz (Super h) else hForcedMecSpeed01Hz)
      in if ForceConvergency h
         then (True, h\<lparr>IsAlgorithmConverged := True, Super := (Super h)\<lparr>bSpeedErrorNumber := 0\<rparr>\<rparr>)
         else (let hEstimatedSpeed01Hz = hAvrMecSpeed01Hz (Super h);
                   wtemp = (scast hEstimatedSpeed01Hz * scast hForcedMecSpeed01Hz :: int32_t)
               in if 0 <s wtemp
                  then (let hEstimatedSpeed01Hz = (if hEstimatedSpeed01Hz <s 0 then - hEstimatedSpeed01Hz else hEstimatedSpeed01Hz);
                            hForcedMecSpeed01Hz = (if hForcedMecSpeed01Hz <s 0 then - hForcedMecSpeed01Hz else hForcedMecSpeed01Hz);
                            wAux = (scast hForcedMecSpeed01Hz * scast (ucast (SpeedValidationBand_H h) :: int16_t) :: int32_t);
                            hUpperThreshold = (scast (c_div wAux 16) :: int16_t);
                            wAux = (scast hForcedMecSpeed01Hz * scast (ucast (SpeedValidationBand_L h) :: int16_t) :: int32_t);
                            hLowerThreshold = (scast (c_div wAux 16) :: int16_t)
                        in if IsSpeedReliable h
                           then if MinStartUpValidSpeed h < hEstimatedSpeed01Hz
                                then if hLowerThreshold \<le>s hEstimatedSpeed01Hz
                                     then if hEstimatedSpeed01Hz \<le>s hUpperThreshold
                                          then (let h = h\<lparr>ConsistencyCounter := ConsistencyCounter h + 1\<rparr>
                                                in if StartUpConsistThreshold h \<le> ConsistencyCounter h
                                                   then (True, h\<lparr>IsAlgorithmConverged := True,
                                                                 Super := (Super h)\<lparr>bSpeedErrorNumber := 0\<rparr>\<rparr>)
                                                   else (False, h))
                                          else (False, h\<lparr>ConsistencyCounter := 0\<rparr>)
                                     else (False, h\<lparr>ConsistencyCounter := 0\<rparr>)
                                else (False, h\<lparr>ConsistencyCounter := 0\<rparr>)
                           else (False, h\<lparr>ConsistencyCounter := 0\<rparr>))
                  else (False, h)))"

text \<open>\<open>STO_GetObserverGains\<close> returns the pair written through \<open>phC2\<close> and \<open>phC4\<close>.\<close>

definition STO_GetObserverGains :: "'pid STO_Handle_t \<Rightarrow> int16_t \<times> int16_t" where
  "STO_GetObserverGains h = (hC2 h, hC4 h)"

definition STO_SetObserverGains :: "'pid STO_Handle_t \<Rightarrow> int16_t \<Rightarrow> int16_t \<Rightarrow> 'pid STO_Handle_t" where
  "STO_SetObserverGains h hhC1 hhC2 = h\<lparr>hC2 := hhC1, hC4 := hhC2\<rparr>"

section \<open>Feed-forward control (feed_forward_ctrl.c)\<close>

definition FF_Init ::
  "('bus, 'pidp) FF_Handle_t \<Rightarrow> 'bus \<Rightarrow> 'pidp \<Rightarrow> 'pidp \<Rightarrow> ('bus, 'pidp) FF_Handle_t" where
  "FF_Init h pBusSensor pPIDId pPIDIq =
     h\<lparr>wConstant_1D := wDefConstant_1D h,
       wConstant_1Q := wDefConstant_1Q h,
       wConstant_2 := wDefConstant_2 h,
       pBus_Sensor := pBusSensor,
       pPID_d := pPIDId,
       pPID_q := pPIDIq\<rparr>"

text \<open>
  \<open>FF_VqdffComputation\<close>.  \<open>pBusSensorM1\<close> is the process-wide variable of the file;
  \<open>VBS_GetAvBusVoltage_d\<close> reads the average bus voltage of the sensor it designates,
  and \<open>GetElSpeedDpp\<close> is \<open>SPD_GetElSpeedDpp\<close> applied to \<open>STC_GetSpeedSensor\<close>.
\<close>

definition FF_VqdffComputation ::
  "('rdiv \<Rightarrow> uint16_t) \<Rightarrow> ('stc \<Rightarrow> int16_t) \<Rightarrow> 'rdiv \<Rightarrow>
   ('bus, 'pidp) FF_Handle_t \<Rightarrow> Curr_Components \<Rightarrow> 'stc \<Rightarrow> ('bus, 'pidp) FF_Handle_t" where
  "FF_VqdffComputation VBS_GetAvBusVoltage_d GetElSpeedDpp pBusSensorM1 h Iqdref pSTC =
     (let hSpeed_dpp = GetElSpeedDpp pSTC;
          hAvBusVoltage_d = VBS_GetAvBusVoltage_d pBusSensorM1 div 2;
          wtemp1 = c_div (scast hSpeed_dpp * scast (qI_Component2 Iqdref)) 32768;
          wtemp2 = c_div (wtemp1 * wConstant_1D h) (ucast hAvBusVoltage_d);
          wtemp2 = wtemp2 * 2;
          wtemp1 = c_div (wConstant_2 h * scast hSpeed_dpp) (ucast hAvBusVoltage_d) * 16;
          wtemp2 = wtemp1 + wtemp2 + scast (qV_Component1 (VqdAvPIout h));
          wtemp2 = SATURATION_TO_S16 wtemp2;
          h = h\<lparr>Vqdff := (Vqdff h)\<lparr>qV_Component1 := scast wtemp2\<rparr>\<rparr>;
          wtemp1 = c_div (scast hSpeed_dpp * scast (qI_Component1 Iqdref)) 32768;
          wtemp2 = c_div (wtemp1 * wConstant_1Q h) (ucast hAvBusVoltage_d);
          wtemp2 = wtemp2 * 2;
          wtemp2 = scast (qV_Component2 (VqdAvPIout h)) - wtemp2;
          wtemp2 = SATURATION_TO_S16 wtemp2
      in h\<lparr>Vqdff := (Vqdff h)\<lparr>qV_Component2 := scast wtemp2\<rparr>\<rparr>)"

text \<open>
  \<open>FF_DataProcess\<close>: the low-pass of the PI output, in the division form
  (\<open>misra\<close>) and in the shift form.
\<close>

definition FF_DataProcess :: "bool \<Rightarrow> ('bus, 'pidp) FF_Handle_t \<Rightarrow> ('bus, 'pidp) FF_Handle_t" where
  "FF_DataProcess misra h =
     (if misra
      then (let wAux = scast (qV_Component1 (VqdAvPIout h)) * (ucast (hVqdLowPassFilterBW h) - 1);
                wAux = wAux + scast (qV_Component1 (VqdPIout h));
                h = h\<lparr>VqdAvPIout := (VqdAvPIout h)\<lparr>qV_Component1 := scast (c_div wAux (ucast (hVqdLowPassFilterBW h)))\<rparr>\<rparr>;
                wAux = scast (qV_Component2 (VqdAvPIout h)) * (ucast (hVqdLowPassFilterBW h) - 1);
                wAux = wAux + scast (qV_Component2 (VqdPIout h))
            in h\<lparr>VqdAvPIout := (VqdAvPIout h)\<lparr>qV_Component2 := scast (c_div wAux (ucast (hVqdLowPassFilterBW h)))\<rparr>\<rparr>)
      else (let wAux = (push_bit (unat (hVqdLowPassFilterBWLOG h)) (scast (qV_Component1 (VqdAvPIout h))) :: int32_t);
                wAux = wAux - scast (qV_Component1 (VqdAvPIout h)) + scast (qV_Component1 (VqdPIout h));
                h = h\<lparr>VqdAvPIout := (VqdAvPIout h)\<lparr>qV_Component1 := scast (signed_drop_bit (unat (hVqdLowPassFilterBWLOG h)) wAux)\<rparr>\<rparr>;
                wAux = (push_bit (unat (hVqdLowPassFilterBWLOG h)) (scast (qV_Component2 (VqdAvPIout h))) :: int32_t);
                wAux = wAux - scast (qV_Component2 (VqdAvPIout h)) + scast (qV_Component2 (VqdPIout h))
            in h\<lparr>VqdAvPIout := (VqdAvPIout h)\<lparr>qV_Component2 := scast (signed_drop_bit (unat (hVqdLowPassFilterBWLOG h)) wAux)\<rparr>\<rparr>))"

definition FF_GetVqdff :: "('bus, 'pidp) FF_Handle_t \<Rightarrow> Volt_Components" where
  "FF_GetVqdff h = Vqdff h"

definition FF_GetVqdAvPIout :: "('bus, 'pidp) FF_Handle_t \<Rightarrow> Volt_Components" where
  "FF_GetVqdAvPIout h = Vqdff h"

section \<open>Reference formulas and scenario states\<close>

text \<open>
  The PLL error as the specification words it:
  \<open>err_pll = (e\<^sub>\<beta>' cos \<theta> - e\<^sub>\<alpha>' sin \<theta>) / 32768\<close> with \<open>e\<^sub>\<alpha>' = e\<^sub>\<alpha> dir\<close> and
  \<open>e\<^sub>\<beta>' = e\<^sub>\<beta> dir\<close>, on mathematical integers.
\<close>

definition err_pll_spec :: "int \<Rightarrow> int \<Rightarrow> int \<Rightarrow> int \<Rightarrow> int \<Rightarrow> int" where
  "err_pll_spec e_alfa e_beta dir sin_theta cos_theta =
     ((e_beta * dir) * cos_theta - (e_alfa * dir) * sin_theta) div 32768"

text \<open>A handle with every field zero and a speed buffer of 64 entries, and zero inputs.\<close>

definition SpeednPosFdbk_zero :: SpeednPosFdbk_Handle_t where
  "SpeednPosFdbk_zero =
     \<lparr>hElAngle = 0, hElSpeedDpp = 0, hAvrMecSpeed01Hz = 0, hMecAccel01HzP = 0,
      bSpeedErrorNumber = 0, bMaximumSpeedErrorsNumber = 0, hMeasurementFrequency = 0,
      bElToMecRatio = 0, hMaxReliableMecSpeed01Hz = 0\<rparr>"

definition STO_zero :: "'pid \<Rightarrow> 'pid STO_Handle_t" where
  "STO_zero pid =
     \<lparr>Super = SpeednPosFdbk_zero,
      hC1 = 0, hC2 = 0, hC3 = 0, hC4 = 0, hC5 = 0, hC6 = 0, hF1 = 0, hF2 = 0, hF3 = 0,
      F3POW2 = 0, PIRegulator = pid,
      Ialfa_est = 0, Ibeta_est = 0, wBemf_alfa_est = 0, wBemf_beta_est = 0,
      hBemf_alfa_est = 0, hBemf_beta_est = 0,
      Speed_Buffer = replicate 64 0, Speed_Buffer_Index = 0,
      IsSpeedReliable = False, ConsistencyCounter = 0, ReliabilityCounter = 0,
      IsAlgorithmConverged = False, IsBemfConsistent = False,
      Obs_Bemf_Level = 0, Est_Bemf_Level = 0, EnableDualCheck = False,
      DppBufferSum = 0, SpeedBufferOldestEl = 0,
      SpeedBufferSize01Hz = 0, SpeedBufferSizedpp = 0, VariancePercentage = 0,
      SpeedValidationBand_H = 0, SpeedValidationBand_L = 0, MinStartUpValidSpeed = 0,
      StartUpConsistThreshold = 0, Reliability_hysteresys = 0,
      BemfConsistencyCheck = 0, BemfConsistencyGain = 0, MaxAppPositiveMecSpeed01Hz = 0,
      F1LOG = 0, F2LOG = 0, SpeedBufferSizedppLOG = 0,
      ForceConvergency = False, ForceConvergency2 = False\<rparr>"

definition Observer_Inputs_zero :: Observer_Inputs_t where
  "Observer_Inputs_zero =
     \<lparr>Valfa_beta = \<lparr>qV_Component1 = 0, qV_Component2 = 0\<rparr>,
      Ialfa_beta = \<lparr>qI_Component1 = 0, qI_Component2 = 0\<rparr>,
      Vbus = 0\<rparr>"

text \<open>
  Collaborators for the scenarios: a trigonometric function that answers sin 0 and
  cos 32767, the pair of the angle 0, and a PI regulator whose state is the last error
  it was given and whose output is 0.
\<close>

definition trig_zero_angle :: "int16_t \<Rightarrow> Trig_Components" where
  "trig_zero_angle a = \<lparr>hCos = 32767, hSin = 0\<rparr>"

definition PI_record_error :: "int32_t \<Rightarrow> int32_t \<Rightarrow> int16_t \<times> int32_t" where
  "PI_record_error pid e = (0, e)"

text \<open>
  An observer with \<open>F1 = F2 = 16384\<close>, a buffer of 64 speeds, and the estimates given:
  the alpha current estimate and the beta back-EMF estimate.
\<close>

definition STO_observer_state :: "int32_t \<Rightarrow> int32_t \<Rightarrow> int32_t STO_Handle_t" where
  "STO_observer_state ialfa bbeta =
     (STO_zero 0)\<lparr>hF1 := 16384, F1LOG := 14, hF2 := 16384, F2LOG := 14,
       Ialfa_est := ialfa, wBemf_beta_est := bbeta,
       SpeedBufferSize01Hz := 64, SpeedBufferSizedpp := 64, SpeedBufferSizedppLOG := 6\<rparr>"

text \<open>
  The start-up scenario S3: bands 14 and 18, minimum valid speed 50, threshold 64, the
  speed reliable, both force flags clear; the estimated speed and the consistency
  counter are given.
\<close>

definition STO_startup_state :: "int16_t \<Rightarrow> uint8_t \<Rightarrow> unit STO_Handle_t" where
  "STO_startup_state est counter =
     (STO_zero ())\<lparr>Super := SpeednPosFdbk_zero\<lparr>hAvrMecSpeed01Hz := est\<rparr>,
       IsSpeedReliable := True, ConsistencyCounter := counter,
       SpeedValidationBand_H := 18, SpeedValidationBand_L := 14, MinStartUpValidSpeed := 50,
       StartUpConsistThreshold := 64\<rparr>"

text \<open>
  The decay of the low-pass error in integer arithmetic.  With bandwidth \<open>n\<close>, input \<open>v\<close>
  and average \<open>V\<close>, the new average \<open>V'\<close> does not move away from \<open>v\<close> and does not
  overshoot it, and the new error is \<open>(n - 1) / n\<close> times the old one up to less than one
  unit of rounding: \<open>|n (v - V') - (n - 1) (v - V)| \<le> n - 1\<close>.
\<close>

definition decays_towards :: "int \<Rightarrow> int \<Rightarrow> int \<Rightarrow> int \<Rightarrow> bool" where
  "decays_towards n v V V' \<longleftrightarrow>
     (0 \<le> v - V \<longrightarrow> 0 \<le> v - V' \<and> v - V' \<le> v - V) \<and>
     (v - V \<le> 0 \<longrightarrow> v - V \<le> v - V' \<and> v - V' \<le> 0) \<and>
     \<bar>n * (v - V') - (n - 1) * (v - V)\<bar> \<le> n - 1"

text \<open>
  A feed-forward handle with every field zero, and the low-pass scenario with bandwidth
  4 (shift 2), PI output \<open>(vq, vd)\<close> and average \<open>(Vq, Vd)\<close>.
\<close>

definition FF_zero :: "(unit, unit) FF_Handle_t" where
  "FF_zero =
     \<lparr>Vqdff = \<lparr>qV_Component1 = 0, qV_Component2 = 0\<rparr>,
      VqdPIout = \<lparr>qV_Component1 = 0, qV_Component2 = 0\<rparr>,
      VqdAvPIout = \<lparr>qV_Component1 = 0, qV_Component2 = 0\<rparr>,
      wConstant_1D = 0, wConstant_1Q = 0, wConstant_2 = 0,
      pBus_Sensor = (), pPID_q = (), pPID_d = (),
      hVqdLowPassFilterBW = 0,
      wDefConstant_1D = 0, wDefConstant_1Q = 0, wDefConstant_2 = 0,
      hVqdLowPassFilterBWLOG = 0\<rparr>"

definition FF_lowpass_state :: "int16_t \<Rightarrow> int16_t \<Rightarrow> int16_t \<Rightarrow> int16_t \<Rightarrow> (unit, unit) FF_Handle_t" where
  "FF_lowpass_state vq vd Vq Vd =
     FF_zero\<lparr>VqdPIout := \<lparr>qV_Component1 = vq, qV_Component2 = vd\<rparr>,
             VqdAvPIout := \<lparr>qV_Component1 = Vq, qV_Component2 = Vd\<rparr>,
             hVqdLowPassFilterBW := 4, hVqdLowPassFilterBWLOG := 2\<rparr>"

text \<open>
  \<open>k\<close> alternating pushes and averaging calls: each speed of the list is stored by
  \<open>STO_Store_Rotor_Speed\<close>, as the observer step does, and \<open>STO_CalcAvrgElSpeedDpp\<close>
  is called after it.
\<close>

fun STO_ticks :: "bool \<Rightarrow> 'pid STO_Handle_t \<Rightarrow> int16_t list \<Rightarrow> 'pid STO_Handle_t" where
  "STO_ticks misra h [] = h"
| "STO_ticks misra h (s # ss) =
     STO_ticks misra (STO_CalcAvrgElSpeedDpp misra (STO_Store_Rotor_Speed h s)) ss"

text \<open>
  The invariant of the speed buffer.  \<open>hist\<close> lists the speeds stored since the clear,
  the newest first; the speeds before the clear count as zero.  The slot \<open>j\<close> places
  behind the newest index holds the \<open>j\<close>-th newest speed, and the rolling sum is the
  sum of the \<open>SpeedBufferSizedpp\<close> newest speeds.
\<close>

definition speed_sample :: "int16_t list \<Rightarrow> nat \<Rightarrow> int16_t" where
  "speed_sample hist j = (if j < length hist then hist ! j else 0)"

definition speed_buffer_inv :: "'pid STO_Handle_t \<Rightarrow> int16_t list \<Rightarrow> bool" where
  "speed_buffer_inv h hist \<longleftrightarrow>
     1 \<le> unat (SpeedBufferSizedpp h) \<and>
     unat (SpeedBufferSizedpp h) \<le> unat (SpeedBufferSize01Hz h) \<and>
     unat (SpeedBufferSize01Hz h) \<le> length (Speed_Buffer h) \<and>
     unat (Speed_Buffer_Index h) < unat (SpeedBufferSize01Hz h) \<and>
     (\<forall>j < unat (SpeedBufferSize01Hz h).
        Speed_Buffer h ! ((unat (Speed_Buffer_Index h) + unat (SpeedBufferSize01Hz h) - j)
                            mod unat (SpeedBufferSize01Hz h)) = speed_sample hist j) \<and>
     sint (DppBufferSum h) = (\<Sum>j < unat (SpeedBufferSizedpp h). sint (speed_sample hist j))"

text \<open>
  A handle with the buffer sizes given and a stale rolling sum and index, and a PI
  regulator without state.
\<close>

definition STO_buffer_state :: "uint8_t \<Rightarrow> uint8_t \<Rightarrow> uint16_t \<Rightarrow> unit STO_Handle_t" where
  "STO_buffer_state n01Hz ndpp ndppLOG =
     (STO_zero ())\<lparr>SpeedBufferSize01Hz := n01Hz, SpeedBufferSizedpp := ndpp,
                     SpeedBufferSizedppLOG := ndppLOG, DppBufferSum := 77, Speed_Buffer_Index := 3\<rparr>"

definition PID_SetIntegralTerm_unit :: "unit \<Rightarrow> int32_t \<Rightarrow> unit" where
  "PID_SetIntegralTerm_unit pid w = ()"

text \<open>
  A stand-in for the check of the base class, which accepts every speed and leaves the
  handle as it is.
\<close>

definition SPD_IsMecSpeedReliable_accept ::
  "SpeednPosFdbk_Handle_t \<Rightarrow> int16_t \<Rightarrow> bool \<times> SpeednPosFdbk_Handle_t" where
  "SPD_IsMecSpeedReliable_accept super hMecSpeed01Hz = (True, super)"

text \<open>
  The scenario S4: one buffered speed of 205 dpp at 16 kHz and one pole pair, which is
  500 in 0.1 Hz; maximum reliable speed 1000, maximum application speed 2000, gain 64,
  the dual check enabled, both back-EMF estimates zero; the percentage of the check is
  given.
\<close>

definition STO_bemf_state :: "uint8_t \<Rightarrow> unit STO_Handle_t" where
  "STO_bemf_state check =
     (STO_zero ())\<lparr>Super := SpeednPosFdbk_zero\<lparr>hMeasurementFrequency := 16000, bElToMecRatio := 1,
                                               hMaxReliableMecSpeed01Hz := 1000\<rparr>,
       Speed_Buffer := (replicate 64 0)[0 := 205], SpeedBufferSize01Hz := 1,
       EnableDualCheck := True, MaxAppPositiveMecSpeed01Hz := 2000,
       BemfConsistencyGain := 64, BemfConsistencyCheck := check\<rparr>"

text \<open>
  A buffer of two speeds (shift 1) with the rolling sum 0 and the newest speed given.
\<close>

definition STO_average_state :: "int16_t \<Rightarrow> unit STO_Handle_t" where
  "STO_average_state s =
     (STO_zero ())\<lparr>SpeedBufferSize01Hz := 2, SpeedBufferSizedpp := 2, SpeedBufferSizedppLOG := 1,
       Speed_Buffer := (replicate 64 0)[0 := s]\<rparr>"

section \<open>Verified properties\<close>

subsection \<open>Signed values of machine words\<close>

lemma sint16_range: "- 32768 \<le> sint (x :: 16 word) \<and> sint x \<le> 32767"
  using sint_ge [of x] sint_lt [of x] by simp

lemma sint32_range: "- 2147483648 \<le> sint (x :: 32 word) \<and> sint x \<le> 2147483647"
  using sint_ge [of x] sint_lt [of x] by simp

lemma sint_scast_16_32: "sint (scast (x :: 16 word) :: 32 word) = sint x"
  by (simp add: sint_up_scast is_up)

lemma stb_uint: "uint (x :: 'a :: len word) < 2 ^ n \<Longrightarrow> signed_take_bit n (uint x) = uint x"
proof (rule signed_take_bit_int_eq_self)
  have "- (2 ^ n) \<le> (0 :: int)" by simp
  also have "0 \<le> uint x" by simp
  finally show "- (2 ^ n) \<le> uint x" .
qed

lemma sint_ucast_16_32: "sint (ucast (x :: 16 word) :: 32 word) = uint x"
  using uint_lt2p [of x] by (simp add: signed_ucast_eq stb_uint)

lemma sint_ucast_8_32: "sint (ucast (x :: 8 word) :: 32 word) = uint x"
  using uint_lt2p [of x] by (simp add: signed_ucast_eq stb_uint)

lemma sint_ucast_8_16: "sint (ucast (x :: 8 word) :: 16 word) = uint x"
  using uint_lt2p [of x] by (simp add: signed_ucast_eq stb_uint)

lemma sint32_of_int:
  "- 2147483648 \<le> k \<Longrightarrow> k \<le> 2147483647 \<Longrightarrow> sint (word_of_int k :: 32 word) = k"
  by (simp add: sint_sbintrunc' signed_take_bit_int_eq_self)

lemma sint16_of_int:
  "- 32768 \<le> k \<Longrightarrow> k \<le> 32767 \<Longrightarrow> sint (word_of_int k :: 16 word) = k"
  by (simp add: sint_sbintrunc' signed_take_bit_int_eq_self)

lemma sint32_add:
  "- 2147483648 \<le> sint a + sint b \<Longrightarrow> sint a + sint b \<le> 2147483647 \<Longrightarrow>
   sint (a + b :: 32 word) = sint a + sint b"
  by (simp add: sint_word_ariths signed_take_bit_int_eq_self)

lemma sint32_diff:
  "- 2147483648 \<le> sint a - sint b \<Longrightarrow> sint a - sint b \<le> 2147483647 \<Longrightarrow>
   sint (a - b :: 32 word) = sint a - sint b"
  by (simp add: sint_word_ariths signed_take_bit_int_eq_self)

lemma sint32_mult:
  "- 2147483648 \<le> sint a * sint b \<Longrightarrow> sint a * sint b \<le> 2147483647 \<Longrightarrow>
   sint (a * b :: 32 word) = sint a * sint b"
  by (simp add: sint_word_ariths signed_take_bit_int_eq_self)

lemma sint_scast_32_16:
  "- 32768 \<le> sint x \<Longrightarrow> sint x \<le> 32767 \<Longrightarrow> sint (scast (x :: 32 word) :: 16 word) = sint x"
  unfolding scast_eq by (rule sint16_of_int)

lemma sint_c_div:
  "- 2147483648 \<le> sint a sdiv sint b \<Longrightarrow> sint a sdiv sint b \<le> 2147483647 \<Longrightarrow>
   sint (c_div a b) = sint a sdiv sint b"
  by (simp add: c_div_def sint32_of_int)

lemma sint_asr: "sint (signed_drop_bit n (x :: 32 word)) = sint x div 2 ^ n"
  by (simp add: sint_signed_drop_bit_eq drop_bit_eq_div)

lemma sdiv_eq_cases:
  "0 < (d :: int) \<Longrightarrow> k sdiv d = (if 0 \<le> k then k div d else - ((- k) div d))"
  by (auto simp: signed_divide_int_def sgn_if abs_if)

lemma int_prod_bound:
  fixes a b :: int
  assumes "\<bar>a\<bar> \<le> A" "\<bar>b\<bar> \<le> B"
  shows "\<bar>a * b\<bar> \<le> A * B"
proof -
  have "\<bar>a\<bar> * \<bar>b\<bar> \<le> A * B"
    using assms by (intro mult_mono) auto
  then show ?thesis by (simp add: abs_mult)
qed

lemma sint_mult_s16:
  "sint (scast (a :: 16 word) * scast (b :: 16 word) :: 32 word) = sint a * sint b"
proof -
  have "\<bar>sint a\<bar> \<le> 32768" "\<bar>sint b\<bar> \<le> 32768"
    using sint16_range [of a] sint16_range [of b] by auto
  from int_prod_bound [OF this] have "\<bar>sint a * sint b\<bar> \<le> 1073741824" by simp
  then have "sint (scast a * scast b :: 32 word) = sint (scast a :: 32 word) * sint (scast b :: 32 word)"
    by (intro sint32_mult) (auto simp: sint_scast_16_32)
  then show ?thesis by (simp add: sint_scast_16_32)
qed

text \<open>Evaluation of the operations at a concrete state.\<close>

lemmas STO_eval =
  STO_CalcElAngle_def STO_CalcElAngle_clamp_def STO_CalcElAngle_PLL_args_def
  STO_CalcElAngle_PLL_error_def STO_ExecutePLL_def STO_ExecutePLL_error_def
  STO_Store_Rotor_Speed_def STO_CalcAvrgElSpeedDpp_def STO_IsObserverConverged_def
  div_or_shift_def c_div_def
  STO_zero_def SpeednPosFdbk_zero_def Observer_Inputs_zero_def trig_zero_angle_def
  PI_record_error_def STO_observer_state_def STO_startup_state_def
  word_sless_alt word_sle_eq Let_def

subsection \<open>The clamp of the observer step\<close>

lemma sint_32767_mult: "sint (32767 * scast (F :: 16 word) :: 32 word) = 32767 * sint F"
proof -
  have "sint (32767 * scast F :: 32 word) = sint (32767 :: 32 word) * sint (scast F :: 32 word)"
    using sint16_range [of F] by (intro sint32_mult) (simp_all add: sint_scast_16_32)
  then show ?thesis by (simp add: sint_scast_16_32)
qed

lemma sint_neg_32767_mult: "sint (- (32767 * scast (F :: 16 word)) :: 32 word) = - (32767 * sint F)"
proof -
  have "sint (- 32767 * scast F :: 32 word) = sint (- 32767 :: 32 word) * sint (scast F :: 32 word)"
    using sint16_range [of F] by (intro sint32_mult) (simp_all add: sint_scast_16_32)
  then show ?thesis by (simp add: sint_scast_16_32)
qed

lemma clamp_pattern_range:
  "\<bar>sint (if 32767 * scast F <s x then 32767 * scast F
           else if x \<le>s - 32767 * scast F then - 32767 * scast F else (x :: 32 word))\<bar>
     \<le> 32767 * \<bar>sint (F :: 16 word)\<bar>"
  by (simp add: word_sless_alt word_sle_eq sint_32767_mult sint_neg_32767_mult abs_if)

lemma clamp_pattern_range':
  "\<bar>sint (if scast F * 32767 <s x then 32767 * scast F
           else if x \<le>s - 32767 * scast F then - 32767 * scast F else (x :: 32 word))\<bar>
     \<le> 32767 * \<bar>sint (F :: 16 word)\<bar>"
  using clamp_pattern_range [of F x] by (simp add: mult.commute)

lemma upd_if_Ialfa:
  "(if c then h\<lparr>Ialfa_est := a\<rparr> else if d then h\<lparr>Ialfa_est := b\<rparr> else h) =
     h\<lparr>Ialfa_est := (if c then a else if d then b else Ialfa_est h)\<rparr>"
  by simp

lemma upd_if_Ibeta:
  "(if c then h\<lparr>Ibeta_est := a\<rparr> else if d then h\<lparr>Ibeta_est := b\<rparr> else h) =
     h\<lparr>Ibeta_est := (if c then a else if d then b else Ibeta_est h)\<rparr>"
  by simp

lemma upd_if_Balfa:
  "(if c then h\<lparr>wBemf_alfa_est := a\<rparr> else if d then h\<lparr>wBemf_alfa_est := b\<rparr> else h) =
     h\<lparr>wBemf_alfa_est := (if c then a else if d then b else wBemf_alfa_est h)\<rparr>"
  by simp

lemma upd_if_Bbeta:
  "(if c then h\<lparr>wBemf_beta_est := a\<rparr> else if d then h\<lparr>wBemf_beta_est := b\<rparr> else h) =
     h\<lparr>wBemf_beta_est := (if c then a else if d then b else wBemf_beta_est h)\<rparr>"
  by simp

lemmas upd_if = upd_if_Ialfa upd_if_Ibeta upd_if_Balfa upd_if_Bbeta

lemma STO_CalcElAngle_clamp_fst:
  "fst (STO_CalcElAngle_clamp m h) =
     h\<lparr>wBemf_alfa_est :=
          (if scast (hF2 h) * 32767 <s wBemf_alfa_est h then 32767 * scast (hF2 h)
           else if wBemf_alfa_est h \<le>s - 32767 * scast (hF2 h) then - 32767 * scast (hF2 h)
           else wBemf_alfa_est h),
       wBemf_beta_est :=
          (if 32767 * scast (hF2 h) <s wBemf_beta_est h then 32767 * scast (hF2 h)
           else if wBemf_beta_est h \<le>s - 32767 * scast (hF2 h) then - 32767 * scast (hF2 h)
           else wBemf_beta_est h),
       Ialfa_est :=
          (if 32767 * scast (hF1 h) <s Ialfa_est h then 32767 * scast (hF1 h)
           else if Ialfa_est h \<le>s - 32767 * scast (hF1 h) then - 32767 * scast (hF1 h)
           else Ialfa_est h),
       Ibeta_est :=
          (if 32767 * scast (hF1 h) <s Ibeta_est h then 32767 * scast (hF1 h)
           else if Ibeta_est h \<le>s - 32767 * scast (hF1 h) then - 32767 * scast (hF1 h)
           else Ibeta_est h)\<rparr>"
  by (simp add: STO_CalcElAngle_clamp_def upd_if Let_def cong: if_cong)

lemma clamp_Ialfa:
  "Ialfa_est (fst (STO_CalcElAngle_clamp m h)) =
     (if 32767 * scast (hF1 h) <s Ialfa_est h then 32767 * scast (hF1 h)
      else if Ialfa_est h \<le>s - 32767 * scast (hF1 h) then - 32767 * scast (hF1 h) else Ialfa_est h)"
  unfolding STO_CalcElAngle_clamp_fst by simp

lemma clamp_Ibeta:
  "Ibeta_est (fst (STO_CalcElAngle_clamp m h)) =
     (if 32767 * scast (hF1 h) <s Ibeta_est h then 32767 * scast (hF1 h)
      else if Ibeta_est h \<le>s - 32767 * scast (hF1 h) then - 32767 * scast (hF1 h) else Ibeta_est h)"
  unfolding STO_CalcElAngle_clamp_fst by simp

lemma clamp_Balfa:
  "wBemf_alfa_est (fst (STO_CalcElAngle_clamp m h)) =
     (if scast (hF2 h) * 32767 <s wBemf_alfa_est h then 32767 * scast (hF2 h)
      else if wBemf_alfa_est h \<le>s - 32767 * scast (hF2 h) then - 32767 * scast (hF2 h)
      else wBemf_alfa_est h)"
  unfolding STO_CalcElAngle_clamp_fst by simp

lemma clamp_Bbeta:
  "wBemf_beta_est (fst (STO_CalcElAngle_clamp m h)) =
     (if 32767 * scast (hF2 h) <s wBemf_beta_est h then 32767 * scast (hF2 h)
      else if wBemf_beta_est h \<le>s - 32767 * scast (hF2 h) then - 32767 * scast (hF2 h)
      else wBemf_beta_est h)"
  unfolding STO_CalcElAngle_clamp_fst by simp

lemma clamp_PIRegulator [simp]: "PIRegulator (fst (STO_CalcElAngle_clamp m h)) = PIRegulator h"
  unfolding STO_CalcElAngle_clamp_fst by simp

lemma clamp_Super [simp]: "Super (fst (STO_CalcElAngle_clamp m h)) = Super h"
  unfolding STO_CalcElAngle_clamp_fst by simp

text \<open>
  Claim C1, as stated, fails: the estimates are clamped when the step starts, and the
  values the step stores when it returns are the unclamped next values.  With
  \<open>F1 = 16384\<close>, the alpha current estimate at its bound \<open>32767 \<sqdot> 16384\<close>, gain
  \<open>C2 = 1\<close>, every other gain zero and a measured current of zero, the step stores
  \<open>32767 \<sqdot> 16384 + 32767\<close>, above the bound, in both arithmetic forms.
\<close>

theorem STO_CalcElAngle_stores_unclamped:
  "32767 * sint (hF1 ((STO_observer_state 536854528 0)\<lparr>hC2 := 1\<rparr>))
     < sint (Ialfa_est (snd (STO_CalcElAngle False trig_zero_angle PI_record_error
              ((STO_observer_state 536854528 0)\<lparr>hC2 := 1\<rparr>) Observer_Inputs_zero))) \<and>
   32767 * sint (hF1 ((STO_observer_state 536854528 0)\<lparr>hC2 := 1\<rparr>))
     < sint (Ialfa_est (snd (STO_CalcElAngle True trig_zero_angle PI_record_error
              ((STO_observer_state 536854528 0)\<lparr>hC2 := 1\<rparr>) Observer_Inputs_zero)))"
  by (simp add: STO_eval)

text \<open>
  Claim C1, amended.  For every observer state, the first part of the observer step
  clamps each stored estimate before the step consumes it: after the clamp the current
  estimates lie within \<open>\<plusminus> 32767 \<sqdot> |F1|\<close> and the back-EMF estimates within
  \<open>\<plusminus> 32767 \<sqdot> |F2|\<close>.  The next values stored when the step returns are not clamped
  until the following step.
\<close>

theorem STO_CalcElAngle_clamp_range:
  "\<bar>sint (Ialfa_est (fst (STO_CalcElAngle_clamp misra h)))\<bar> \<le> 32767 * \<bar>sint (hF1 h)\<bar> \<and>
   \<bar>sint (Ibeta_est (fst (STO_CalcElAngle_clamp misra h)))\<bar> \<le> 32767 * \<bar>sint (hF1 h)\<bar> \<and>
   \<bar>sint (wBemf_alfa_est (fst (STO_CalcElAngle_clamp misra h)))\<bar> \<le> 32767 * \<bar>sint (hF2 h)\<bar> \<and>
   \<bar>sint (wBemf_beta_est (fst (STO_CalcElAngle_clamp misra h)))\<bar> \<le> 32767 * \<bar>sint (hF2 h)\<bar>"
  unfolding clamp_Ialfa clamp_Ibeta clamp_Balfa clamp_Bbeta
  using clamp_pattern_range [of "hF1 h" "Ialfa_est h"] clamp_pattern_range [of "hF1 h" "Ibeta_est h"]
    clamp_pattern_range' [of "hF2 h" "wBemf_alfa_est h"] clamp_pattern_range [of "hF2 h" "wBemf_beta_est h"]
  by blast

subsection \<open>The error of the PLL\<close>

lemma s16_dec15_range:
  fixes p :: int
  assumes "\<bar>p\<bar> \<le> 32768 * 32767"
  shows "- 32768 \<le> p div 32768 \<and> p div 32768 \<le> 32767 \<and>
         - 32768 \<le> p sdiv 32768 \<and> p sdiv 32768 \<le> 32767"
  using assms by (auto simp: sdiv_eq_cases)

lemma sint_dec15:
  assumes "\<bar>sint (p :: 32 word)\<bar> \<le> 32768 * 32767"
  shows "sint (scast (scast (div_or_shift m p 32768 15) :: 16 word) :: 32 word) =
           (if m then sint p sdiv 32768 else sint p div 32768)"
proof -
  note r = s16_dec15_range [OF assms]
  have d: "sint (div_or_shift m p 32768 15) = (if m then sint p sdiv 32768 else sint p div 32768)"
    using r by (simp add: div_or_shift_def sint_asr sint_c_div)
  have "sint (scast (div_or_shift m p 32768 15) :: 16 word) = sint (div_or_shift m p 32768 15)"
    using r by (intro sint_scast_32_16) (auto simp: d)
  then show ?thesis by (simp add: sint_scast_16_32 d)
qed

lemma sint_STO_ExecutePLL_error:
  assumes "- 32767 \<le> sint (hSin (trig (hElAngle (Super h))))"
      and "- 32767 \<le> sint (hCos (trig (hElAngle (Super h))))"
  shows "sint (STO_ExecutePLL_error m trig h a b) =
     (if m then (sint b * sint (hCos (trig (hElAngle (Super h))))) sdiv 32768
               - (sint a * sint (hSin (trig (hElAngle (Super h))))) sdiv 32768
      else (sint b * sint (hCos (trig (hElAngle (Super h))))) div 32768
               - (sint a * sint (hSin (trig (hElAngle (Super h))))) div 32768)"
proof -
  define s where "s = hSin (trig (hElAngle (Super h)))"
  define c where "c = hCos (trig (hElAngle (Super h)))"
  have bs: "\<bar>sint a * sint s\<bar> \<le> 32768 * 32767"
    using assms(1) sint16_range [of a] sint16_range [of s]
    by (intro int_prod_bound) (auto simp: s_def)
  have bc: "\<bar>sint b * sint c\<bar> \<le> 32768 * 32767"
    using assms(2) sint16_range [of b] sint16_range [of c]
    by (intro int_prod_bound) (auto simp: c_def)
  have e1: "sint (scast (scast (div_or_shift m (scast b * scast c) 32768 15) :: 16 word) :: 32 word) =
           (if m then (sint b * sint c) sdiv 32768 else (sint b * sint c) div 32768)"
    using bc sint_dec15 [of "scast b * scast c" m] by (simp add: sint_mult_s16)
  have e2: "sint (scast (scast (div_or_shift m (scast a * scast s) 32768 15) :: 16 word) :: 32 word) =
           (if m then (sint a * sint s) sdiv 32768 else (sint a * sint s) div 32768)"
    using bs sint_dec15 [of "scast a * scast s" m] by (simp add: sint_mult_s16)
  have r1: "- 32768 \<le> sint (scast (scast (div_or_shift m (scast b * scast c) 32768 15) :: 16 word) :: 32 word)
          \<and> sint (scast (scast (div_or_shift m (scast b * scast c) 32768 15) :: 16 word) :: 32 word) \<le> 32767"
    using sint16_range by (simp add: sint_scast_16_32)
  have r2: "- 32768 \<le> sint (scast (scast (div_or_shift m (scast a * scast s) 32768 15) :: 16 word) :: 32 word)
          \<and> sint (scast (scast (div_or_shift m (scast a * scast s) 32768 15) :: 16 word) :: 32 word) \<le> 32767"
    using sint16_range by (simp add: sint_scast_16_32)
  have "sint (STO_ExecutePLL_error m trig h a b) =
          sint (scast (scast (div_or_shift m (scast b * scast c) 32768 15) :: 16 word) :: 32 word)
        - sint (scast (scast (div_or_shift m (scast a * scast s) 32768 15) :: 16 word) :: 32 word)"
    unfolding STO_ExecutePLL_error_def Let_def s_def [symmetric] c_def [symmetric]
    using r1 r2 by (intro sint32_diff) linarith+
  then show ?thesis
    unfolding e1 e2 unfolding s_def c_def by auto
qed

lemma scast_dir_pos: "(scast (scast (x :: 16 word) * (1 :: 32 word)) :: 16 word) = x"
  by (simp add: scast_up_scast_id is_up)

lemma scast_dir_neg: "(scast (scast (x :: 16 word) * (- 1 :: 32 word)) :: 16 word) = - x"
proof -
  have "sint (0 - scast x :: 32 word) = sint (0 :: 32 word) - sint (scast x :: 32 word)"
    using sint16_range [of x] by (intro sint32_diff) (simp_all add: sint_scast_16_32)
  then have n: "sint (- scast x :: 32 word) = - sint x"
    by (simp add: sint_scast_16_32)
  have "scast (- scast x :: 32 word) = (word_of_int (sint (- scast x :: 32 word)) :: 16 word)"
    by (rule scast_eq)
  also have "\<dots> = word_of_int (- sint x)"
    by (simp only: n)
  also have "\<dots> = - x"
    by (simp flip: wi_hom_neg)
  finally show ?thesis by simp
qed

lemma STO_CalcElAngle_PLL_args_eq:
  "STO_CalcElAngle_PLL_args h a b =
     (if 0 \<le>s hElSpeedDpp (Super h) then (a, - b) else (- a, - (- b)))"
  unfolding STO_CalcElAngle_PLL_args_def Let_def
  by (simp only: scast_dir_pos scast_dir_neg split: if_split) simp

lemma STO_CalcElAngle_PIRegulator:
  "PIRegulator (snd (STO_CalcElAngle m trig pi h inp)) =
     snd (pi (PIRegulator h) (STO_CalcElAngle_PLL_error m trig h))"
  by (simp add: STO_CalcElAngle_def STO_CalcElAngle_PLL_error_def STO_ExecutePLL_def
      STO_Store_Rotor_Speed_def Let_def split_def)

lemma STO_CalcElAngle_hBemf:
  "hBemf_alfa_est (snd (STO_CalcElAngle m trig pi h inp)) = fst (snd (STO_CalcElAngle_clamp m h))"
  "hBemf_beta_est (snd (STO_CalcElAngle m trig pi h inp)) = snd (snd (STO_CalcElAngle_clamp m h))"
  by (simp_all add: STO_CalcElAngle_def STO_ExecutePLL_def
      STO_Store_Rotor_Speed_def Let_def split_def)

text \<open>
  Claim C2, as stated, fails: the step hands the negated beta value to the PLL.  With
  \<open>F2 = 16384\<close>, a beta back-EMF estimate of \<open>1000 \<sqdot> 16384\<close>, alpha estimate zero,
  speed zero (direction +1) and the angle whose cosine is 32767 and sine 0, the s16
  estimates are 0 and 1000 and the specified error is 999; the PI regulator is given
  -1000 in the shift form and -999 in the division form.
\<close>

theorem STO_CalcElAngle_PLL_error_differs:
  "hBemf_alfa_est (snd (STO_CalcElAngle False trig_zero_angle PI_record_error
      (STO_observer_state 0 16384000) Observer_Inputs_zero)) = 0 \<and>
   hBemf_beta_est (snd (STO_CalcElAngle False trig_zero_angle PI_record_error
      (STO_observer_state 0 16384000) Observer_Inputs_zero)) = 1000 \<and>
   err_pll_spec 0 1000 1 0 32767 = 999 \<and>
   sint (PIRegulator (snd (STO_CalcElAngle False trig_zero_angle PI_record_error
      (STO_observer_state 0 16384000) Observer_Inputs_zero))) = - 1000 \<and>
   sint (PIRegulator (snd (STO_CalcElAngle True trig_zero_angle PI_record_error
      (STO_observer_state 0 16384000) Observer_Inputs_zero))) = - 999 \<and>
   sint (PIRegulator (snd (STO_CalcElAngle False trig_zero_angle PI_record_error
      (STO_observer_state 0 16384000) Observer_Inputs_zero))) \<noteq> err_pll_spec 0 1000 1 0 32767 \<and>
   sint (PIRegulator (snd (STO_CalcElAngle True trig_zero_angle PI_record_error
      (STO_observer_state 0 16384000) Observer_Inputs_zero))) \<noteq> err_pll_spec 0 1000 1 0 32767"
  by (simp add: STO_eval err_pll_spec_def)

text \<open>
  Claim C2, amended.  In every call of the observer step whose trigonometric values lie
  within \<open>\<plusminus> 32767\<close>, the PI regulator of the PLL is given
  \<open>(- e\<^sub>\<beta>') cos \<theta> / 32768 - e\<^sub>\<alpha>' sin \<theta> / 32768\<close>: \<open>e\<^sub>\<alpha>'\<close> and \<open>e\<^sub>\<beta>'\<close> are the s16
  back-EMF estimates of the step, negated in s16 when \<open>hElSpeedDpp\<close> is negative, the
  beta value enters negated, \<open>\<theta>\<close> is the electrical angle before the update of this
  step, and each product is divided on its own, rounding down in the shift form and
  towards zero in the division form.
\<close>

theorem STO_CalcElAngle_PLL_error_value:
  assumes "- 32767 \<le> sint (hSin (trig (hElAngle (Super h))))"
      and "- 32767 \<le> sint (hCos (trig (hElAngle (Super h))))"
  shows "PIRegulator (snd (STO_CalcElAngle misra trig pi h inp)) =
           snd (pi (PIRegulator h) (STO_CalcElAngle_PLL_error misra trig h)) \<and>
         sint (STO_CalcElAngle_PLL_error misra trig h) =
           (let h' = snd (STO_CalcElAngle misra trig pi h inp);
                e_alfa' = (if 0 \<le>s hElSpeedDpp (Super h) then hBemf_alfa_est h' else - hBemf_alfa_est h');
                e_beta' = (if 0 \<le>s hElSpeedDpp (Super h) then hBemf_beta_est h' else - hBemf_beta_est h');
                s = sint (hSin (trig (hElAngle (Super h))));
                c = sint (hCos (trig (hElAngle (Super h))))
            in if misra then (sint (- e_beta') * c) sdiv 32768 - (sint e_alfa' * s) sdiv 32768
               else (sint (- e_beta') * c) div 32768 - (sint e_alfa' * s) div 32768)"
proof -
  obtain h1 ea eb where cl: "STO_CalcElAngle_clamp misra h = (h1, ea, eb)"
    by (cases "STO_CalcElAngle_clamp misra h") auto
  have sup: "Super h1 = Super h"
    using clamp_Super [of misra h] by (simp add: cl)
  define h2 where "h2 = h1\<lparr>hBemf_alfa_est := ea, hBemf_beta_est := eb\<rparr>"
  have sup2: "Super h2 = Super h" by (simp add: h2_def sup)
  have err: "STO_CalcElAngle_PLL_error misra trig h =
      (if 0 \<le>s hElSpeedDpp (Super h) then STO_ExecutePLL_error misra trig h2 ea (- eb)
       else STO_ExecutePLL_error misra trig h2 (- ea) (- (- eb)))"
    by (simp add: STO_CalcElAngle_PLL_error_def cl Let_def STO_CalcElAngle_PLL_args_eq sup h2_def)
  have a2: "- 32767 \<le> sint (hSin (trig (hElAngle (Super h2))))"
           "- 32767 \<le> sint (hCos (trig (hElAngle (Super h2))))"
    using assms by (simp_all add: sup2)
  have hb: "hBemf_alfa_est (snd (STO_CalcElAngle misra trig pi h inp)) = ea"
           "hBemf_beta_est (snd (STO_CalcElAngle misra trig pi h inp)) = eb"
    by (simp_all add: STO_CalcElAngle_hBemf cl)
  show ?thesis
    unfolding Let_def hb
    by (simp add: STO_CalcElAngle_PIRegulator err
        sint_STO_ExecutePLL_error [where h = h2 and trig = trig, OF a2] sup2)
qed

theorem STO_CalcElAngle_PLL_error_value_witness:
  "- 32767 \<le> sint (hSin (trig_zero_angle (hElAngle (Super (STO_observer_state 0 16384000))))) \<and>
   - 32767 \<le> sint (hCos (trig_zero_angle (hElAngle (Super (STO_observer_state 0 16384000))))) \<and>
   PIRegulator (snd (STO_CalcElAngle False trig_zero_angle PI_record_error
      (STO_observer_state 0 16384000) Observer_Inputs_zero)) =
     STO_CalcElAngle_PLL_error False trig_zero_angle (STO_observer_state 0 16384000) \<and>
   sint (STO_CalcElAngle_PLL_error False trig_zero_angle (STO_observer_state 0 16384000)) =
     (sint (- 1000 :: 16 word) * 32767) div 32768 - (sint (0 :: 16 word) * 0) div 32768"
  using STO_CalcElAngle_PLL_error_value [of trig_zero_angle "STO_observer_state 0 16384000"
      False PI_record_error Observer_Inputs_zero]
  by (simp add: STO_eval)

subsection \<open>The low-pass of the feed-forward\<close>

lemma floor_step:
  fixes d n :: int
  assumes n: "1 \<le> n"
  shows "(0 \<le> d \<longrightarrow> 0 \<le> d - d div n \<and> d - d div n \<le> d) \<and>
         (d \<le> 0 \<longrightarrow> d \<le> d - d div n \<and> d - d div n \<le> 0) \<and>
         0 \<le> n * (d - d div n) - (n - 1) * d \<and>
         n * (d - d div n) - (n - 1) * d \<le> n - 1"
proof -
  define k where "k = d div n"
  define r where "r = d mod n"
  define P where "P = (n - 1) * k"
  have dk: "d = P + k + r"
    unfolding P_def k_def r_def by (simp add: algebra_simps)
  have nk: "n * k = P + k"
    unfolding P_def by (simp add: algebra_simps)
  have r: "0 \<le> r" "r \<le> n - 1"
    using n pos_mod_bound [of n d] pos_mod_sign [of n d] by (auto simp: r_def)
  have kpos: "0 \<le> d \<Longrightarrow> 0 \<le> k"
    using n by (simp add: k_def pos_imp_zdiv_nonneg_iff)
  have Ppos: "0 \<le> k \<Longrightarrow> 0 \<le> P"
    using n by (simp add: P_def)
  have kneg: "d < 0 \<Longrightarrow> k \<le> - 1"
    using n div_neg_pos_less0 [of d n] by (simp add: k_def)
  have Pneg: "k \<le> - 1 \<Longrightarrow> P \<le> - (n - 1)"
    using n mult_left_mono [of k "- 1" "n - 1"] by (simp add: P_def)
  have e: "n * (d - k) - (n - 1) * d = r"
    using dk nk by (simp add: algebra_simps)
  have 1: "0 \<le> d \<longrightarrow> 0 \<le> d - k \<and> d - k \<le> d"
    using kpos Ppos dk r by auto
  have 2: "d \<le> 0 \<longrightarrow> d \<le> d - k \<and> d - k \<le> 0"
  proof (cases "d < 0")
    case True
    then show ?thesis using kneg Pneg dk r by auto
  next
    case False
    then show ?thesis using kpos Ppos dk r by auto
  qed
  show ?thesis
    using 1 2 e r unfolding k_def by simp
qed

lemma ceil_step:
  fixes d n :: int
  assumes n: "1 \<le> n"
  shows "(0 \<le> d \<longrightarrow> 0 \<le> d + (- d) div n \<and> d + (- d) div n \<le> d) \<and>
         (d \<le> 0 \<longrightarrow> d \<le> d + (- d) div n \<and> d + (- d) div n \<le> 0) \<and>
         - (n - 1) \<le> n * (d + (- d) div n) - (n - 1) * d \<and>
         n * (d + (- d) div n) - (n - 1) * d \<le> 0"
  using floor_step [OF n, of "- d"] by (auto simp: algebra_simps)

lemma lowpass_num: "V * (n - 1) + v = V * n + (v - V)" for V v n :: int
  by (simp add: algebra_simps)

lemma lowpass_div:
  fixes V v n :: int
  assumes "1 \<le> n"
  shows "(V * (n - 1) + v) div n = V + (v - V) div n"
  using assms by (simp add: lowpass_num)

lemma lowpass_sdiv:
  fixes V v n :: int
  assumes "1 \<le> n"
  shows "(V * (n - 1) + v) sdiv n =
     (if 0 \<le> V * (n - 1) + v then V + (v - V) div n else V - (- (v - V)) div n)"
proof -
  have n0: "n \<noteq> 0" "0 < n" using assms by auto
  have eq: "- (V * (n - 1) + v) = (- V) * n + (- (v - V))" by (simp add: algebra_simps)
  have "(- (V * (n - 1) + v)) div n = ((- V) * n + (- (v - V))) div n"
    by (simp only: eq)
  also have "\<dots> = - V + (- (v - V)) div n"
    by (rule div_mult_self3 [OF n0(1)])
  finally have neg: "(- (V * (n - 1) + v)) div n = - V + (- (v - V)) div n" .
  show ?thesis
    unfolding sdiv_eq_cases [OF n0(2)] neg lowpass_div [OF assms] by simp
qed

lemma decays_floor:
  assumes "1 \<le> n"
  shows "decays_towards n v V ((V * (n - 1) + v) div n)"
proof -
  have e: "v - (V + (v - V) div n) = (v - V) - (v - V) div n" by simp
  show ?thesis
    unfolding decays_towards_def lowpass_div [OF assms] e
    using floor_step [OF assms, of "v - V"] by auto
qed

lemma decays_ceil:
  assumes "1 \<le> n"
  shows "decays_towards n v V (V - (- (v - V)) div n)"
proof -
  have e: "v - (V - (- (v - V)) div n) = (v - V) + (- (v - V)) div n" by simp
  show ?thesis
    unfolding decays_towards_def e
    using ceil_step [OF assms, of "v - V"] by auto
qed

lemma decays_trunc:
  assumes "1 \<le> n"
  shows "decays_towards n v V ((V * (n - 1) + v) sdiv n)"
  using decays_floor [OF assms, of v V] decays_ceil [OF assms, of v V]
  by (simp add: lowpass_sdiv [OF assms] lowpass_div [OF assms])

lemma decays_towards_between:
  "decays_towards n v V V' \<Longrightarrow> min V v \<le> V' \<and> V' \<le> max V v"
  by (auto simp: decays_towards_def)

lemma FF_DataProcess_frame:
  "VqdPIout (FF_DataProcess m h) = VqdPIout h"
  "hVqdLowPassFilterBW (FF_DataProcess m h) = hVqdLowPassFilterBW h"
  "hVqdLowPassFilterBWLOG (FF_DataProcess m h) = hVqdLowPassFilterBWLOG h"
  by (simp_all add: FF_DataProcess_def Let_def)

lemma FF_DataProcess_q:
  "qV_Component1 (VqdAvPIout (FF_DataProcess m h)) =
     (if m then scast (c_div (scast (qV_Component1 (VqdAvPIout h)) * (ucast (hVqdLowPassFilterBW h) - 1)
                               + scast (qV_Component1 (VqdPIout h))) (ucast (hVqdLowPassFilterBW h)))
      else scast (signed_drop_bit (unat (hVqdLowPassFilterBWLOG h))
                   (push_bit (unat (hVqdLowPassFilterBWLOG h)) (scast (qV_Component1 (VqdAvPIout h)))
                      - scast (qV_Component1 (VqdAvPIout h)) + scast (qV_Component1 (VqdPIout h)) :: int32_t)))"
  by (simp add: FF_DataProcess_def Let_def)

lemma FF_DataProcess_d:
  "qV_Component2 (VqdAvPIout (FF_DataProcess m h)) =
     (if m then scast (c_div (scast (qV_Component2 (VqdAvPIout h)) * (ucast (hVqdLowPassFilterBW h) - 1)
                               + scast (qV_Component2 (VqdPIout h))) (ucast (hVqdLowPassFilterBW h)))
      else scast (signed_drop_bit (unat (hVqdLowPassFilterBWLOG h))
                   (push_bit (unat (hVqdLowPassFilterBWLOG h)) (scast (qV_Component2 (VqdAvPIout h)))
                      - scast (qV_Component2 (VqdAvPIout h)) + scast (qV_Component2 (VqdPIout h)) :: int32_t)))"
  by (simp add: FF_DataProcess_def Let_def)

text \<open>The numerator of the low-pass, as a signed value.\<close>

lemma sint_lowpass_num:
  fixes V v :: "16 word" and n :: int
  assumes n: "1 \<le> n" "n \<le> 65536" and N: "sint (N :: 32 word) = n"
  shows "sint (scast V * (N - 1) + scast v :: 32 word) = sint V * (n - 1) + sint v"
proof -
  have N1: "sint (N - 1) = n - 1"
  proof -
    have "sint (N - 1) = sint N - sint (1 :: 32 word)"
      using n N by (intro sint32_diff) simp_all
    then show ?thesis by (simp add: N)
  qed
  have b: "\<bar>sint V * (n - 1)\<bar> \<le> 32768 * 65535"
    using n sint16_range [of V] by (intro int_prod_bound) auto
  have m: "sint (scast V * (N - 1) :: 32 word) = sint V * (n - 1)"
  proof -
    have "sint (scast V * (N - 1) :: 32 word) = sint (scast V :: 32 word) * sint (N - 1)"
      using b by (intro sint32_mult) (auto simp: sint_scast_16_32 N1)
    then show ?thesis by (simp add: sint_scast_16_32 N1)
  qed
  have "sint (scast V * (N - 1) + scast v :: 32 word) = sint (scast V * (N - 1) :: 32 word) + sint (scast v :: 32 word)"
    using b sint16_range [of v] by (intro sint32_add) (auto simp: m sint_scast_16_32)
  then show ?thesis by (simp add: m sint_scast_16_32)
qed

lemma sint_lowpass_num_bound:
  fixes V v :: "16 word" and n :: int
  assumes n: "1 \<le> n" "n \<le> 65536"
  shows "\<bar>sint V * (n - 1) + sint v\<bar> \<le> 2147483648"
proof -
  have b: "\<bar>sint V * (n - 1)\<bar> \<le> 32768 * 65535"
    using n sint16_range [of V] by (intro int_prod_bound) auto
  then show ?thesis using sint16_range [of v] by auto
qed

lemma sint_pow2_32: "k \<le> 16 \<Longrightarrow> sint (2 ^ k :: 32 word) = 2 ^ k"
proof -
  assume k: "k \<le> 16"
  have "(2 :: int) ^ k \<le> 2 ^ 16" using k by (intro power_increasing) auto
  then have "(2 :: int) ^ k \<le> 65536" by simp
  moreover have "(0 :: int) \<le> 2 ^ k" by simp
  ultimately have "sint (word_of_int (2 ^ k) :: 32 word) = 2 ^ k"
    by (intro sint32_of_int) linarith+
  then show ?thesis by simp
qed

lemma s16_between:
  "min (sint (V :: 16 word)) (sint (v :: 16 word)) \<le> q \<Longrightarrow> q \<le> max (sint V) (sint v) \<Longrightarrow>
   - 32768 \<le> q \<and> q \<le> 32767"
  using sint16_range [of V] sint16_range [of v] by auto

lemma sint_lowpass_misra:
  fixes V v N :: "16 word"
  assumes "1 \<le> uint N"
  shows "sint (scast (c_div (scast V * (ucast N - 1) + scast v) (ucast N)) :: 16 word) =
           (sint V * (uint N - 1) + sint v) sdiv uint N"
proof -
  have N: "sint (ucast N :: 32 word) = uint N" by (rule sint_ucast_16_32)
  have u: "uint N \<le> 65536"
    using uint_lt2p [of N] by simp
  have num: "sint (scast V * (ucast N - 1) + scast v :: 32 word) = sint V * (uint N - 1) + sint v"
    using assms u by (intro sint_lowpass_num N) auto
  have btw: "- 32768 \<le> (sint V * (uint N - 1) + sint v) sdiv uint N \<and>
             (sint V * (uint N - 1) + sint v) sdiv uint N \<le> 32767"
    using decays_towards_between [OF decays_trunc [OF assms, of "sint v" "sint V"]]
    by (intro s16_between) auto
  have q: "sint (c_div (scast V * (ucast N - 1) + scast v) (ucast N)) =
             (sint V * (uint N - 1) + sint v) sdiv uint N"
    using btw by (simp add: sint_c_div num N)
  show ?thesis
    using btw by (simp add: sint_scast_32_16 q)
qed

lemma sint_lowpass_shift:
  fixes V v :: "16 word"
  assumes "k \<le> 16"
  shows "sint (scast (signed_drop_bit k (push_bit k (scast V) - scast V + scast v :: 32 word)) :: 16 word) =
           (sint V * (2 ^ k - 1) + sint v) div 2 ^ k"
proof -
  have p: "(1 :: int) \<le> 2 ^ k" by simp
  have p2: "(2 :: int) ^ k \<le> 65536" using assms power_increasing [of k 16 "2 :: int"] by simp
  have N: "sint (2 ^ k :: 32 word) = 2 ^ k" using assms by (rule sint_pow2_32)
  have w: "(push_bit k (scast V) - scast V + scast v :: 32 word) = scast V * (2 ^ k - 1) + scast v"
    by (simp add: push_bit_eq_mult algebra_simps)
  have num: "sint (scast V * (2 ^ k - 1) + scast v :: 32 word) = sint V * (2 ^ k - 1) + sint v"
    using p p2 by (intro sint_lowpass_num N) auto
  have btw: "- 32768 \<le> (sint V * (2 ^ k - 1) + sint v) div 2 ^ k \<and>
             (sint V * (2 ^ k - 1) + sint v) div 2 ^ k \<le> 32767"
    using decays_towards_between [OF decays_floor [OF p, of "sint v" "sint V"]]
    by (intro s16_between) auto
  show ?thesis
    unfolding w using btw by (simp add: sint_scast_32_16 sint_asr num)
qed

lemmas FF_eval = FF_DataProcess_def FF_zero_def FF_lowpass_state_def c_div_def push_bit_eq_mult Let_def

text \<open>
  Claim C6, as stated, fails: the quotient is an integer, so the error does not shrink
  by the factor \<open>(N - 1) / N\<close> and the average need not reach the input.  With bandwidth
  4, input 3 and average 0 a call leaves the average at 0, in the shift form and in the
  division form (there also for the input -3): \<open>4 \<sqdot> 3 \<noteq> 3 \<sqdot> 3\<close>, and every further call
  starts from the same state.
\<close>

theorem FF_DataProcess_stalls:
  "FF_DataProcess False (FF_lowpass_state 3 3 0 0) = FF_lowpass_state 3 3 0 0 \<and>
   FF_DataProcess True (FF_lowpass_state 3 (- 3) 0 0) = FF_lowpass_state 3 (- 3) 0 0 \<and>
   VqdAvPIout (FF_lowpass_state 3 3 0 0) \<noteq> VqdPIout (FF_lowpass_state 3 3 0 0) \<and>
   VqdAvPIout (FF_lowpass_state 3 (- 3) 0 0) \<noteq> VqdPIout (FF_lowpass_state 3 (- 3) 0 0) \<and>
   4 * \<bar>sint (qV_Component1 (VqdPIout (FF_lowpass_state 3 3 0 0)))
          - sint (qV_Component1 (VqdAvPIout (FF_DataProcess False (FF_lowpass_state 3 3 0 0))))\<bar>
     \<noteq> 3 * \<bar>sint (qV_Component1 (VqdPIout (FF_lowpass_state 3 3 0 0)))
          - sint (qV_Component1 (VqdAvPIout (FF_lowpass_state 3 3 0 0)))\<bar>"
  by (simp add: FF_eval)

lemma FF_DataProcess_funpow_frame:
  "VqdPIout ((FF_DataProcess m ^^ k) h) = VqdPIout h"
  "hVqdLowPassFilterBW ((FF_DataProcess m ^^ k) h) = hVqdLowPassFilterBW h"
  "hVqdLowPassFilterBWLOG ((FF_DataProcess m ^^ k) h) = hVqdLowPassFilterBWLOG h"
  by (induction k) (simp_all add: FF_DataProcess_frame)

lemma FF_DataProcess_step:
  assumes "if misra then 1 \<le> uint (hVqdLowPassFilterBW h)
           else unat (hVqdLowPassFilterBWLOG h) \<le> 16"
  shows "decays_towards (if misra then uint (hVqdLowPassFilterBW h) else 2 ^ unat (hVqdLowPassFilterBWLOG h))
           (sint (qV_Component1 (VqdPIout h)))
           (sint (qV_Component1 (VqdAvPIout h)))
           (sint (qV_Component1 (VqdAvPIout (FF_DataProcess misra h))))"
    and "decays_towards (if misra then uint (hVqdLowPassFilterBW h) else 2 ^ unat (hVqdLowPassFilterBWLOG h))
           (sint (qV_Component2 (VqdPIout h)))
           (sint (qV_Component2 (VqdAvPIout h)))
           (sint (qV_Component2 (VqdAvPIout (FF_DataProcess misra h))))"
proof -
  show "decays_towards (if misra then uint (hVqdLowPassFilterBW h) else 2 ^ unat (hVqdLowPassFilterBWLOG h))
           (sint (qV_Component1 (VqdPIout h)))
           (sint (qV_Component1 (VqdAvPIout h)))
           (sint (qV_Component1 (VqdAvPIout (FF_DataProcess misra h))))"
  proof (cases misra)
    case True
    then have n: "1 \<le> uint (hVqdLowPassFilterBW h)"
      using assms by auto
    show ?thesis
      using decays_trunc [OF n] by (simp add: True FF_DataProcess_q sint_lowpass_misra [OF n])
  next
    case False
    then have k: "unat (hVqdLowPassFilterBWLOG h) \<le> 16" using assms by auto
    have p: "(1 :: int) \<le> 2 ^ unat (hVqdLowPassFilterBWLOG h)" by simp
    show ?thesis
      using decays_floor [OF p] by (simp add: False FF_DataProcess_q sint_lowpass_shift [OF k])
  qed
  show "decays_towards (if misra then uint (hVqdLowPassFilterBW h) else 2 ^ unat (hVqdLowPassFilterBWLOG h))
           (sint (qV_Component2 (VqdPIout h)))
           (sint (qV_Component2 (VqdAvPIout h)))
           (sint (qV_Component2 (VqdAvPIout (FF_DataProcess misra h))))"
  proof (cases misra)
    case True
    then have n: "1 \<le> uint (hVqdLowPassFilterBW h)"
      using assms by auto
    show ?thesis
      using decays_trunc [OF n] by (simp add: True FF_DataProcess_d sint_lowpass_misra [OF n])
  next
    case False
    then have k: "unat (hVqdLowPassFilterBWLOG h) \<le> 16" using assms by auto
    have p: "(1 :: int) \<le> 2 ^ unat (hVqdLowPassFilterBWLOG h)" by simp
    show ?thesis
      using decays_floor [OF p] by (simp add: False FF_DataProcess_d sint_lowpass_shift [OF k])
  qed
qed

text \<open>
  Claim C6, amended.  For every bandwidth \<open>N \<ge> 1\<close> in the division form (every value of
  the 16-bit field but 0), and every shift up to 16 (\<open>N = 2 ^ shift\<close>, the largest shift
  whose numerator fits 32 bits) in the shift form, repeated calls of
  \<open>FF_DataProcess\<close> leave \<open>VqdPIout\<close> as it is, and each call moves each component of
  \<open>VqdAvPIout\<close> towards the input \<open>v\<close> without moving away and without overshoot; the new
  error \<open>v - V'\<close> is \<open>(N - 1) / N\<close> times the old error \<open>v - V\<close> up to less than one unit
  of rounding.  The average need not converge to \<open>v\<close>.
\<close>

theorem FF_DataProcess_decays:
  assumes "if misra then 1 \<le> uint (hVqdLowPassFilterBW h)
           else unat (hVqdLowPassFilterBWLOG h) \<le> 16"
  shows "VqdPIout ((FF_DataProcess misra ^^ k) h) = VqdPIout h \<and>
         decays_towards (if misra then uint (hVqdLowPassFilterBW h) else 2 ^ unat (hVqdLowPassFilterBWLOG h))
           (sint (qV_Component1 (VqdPIout h)))
           (sint (qV_Component1 (VqdAvPIout ((FF_DataProcess misra ^^ k) h))))
           (sint (qV_Component1 (VqdAvPIout ((FF_DataProcess misra ^^ Suc k) h)))) \<and>
         decays_towards (if misra then uint (hVqdLowPassFilterBW h) else 2 ^ unat (hVqdLowPassFilterBWLOG h))
           (sint (qV_Component2 (VqdPIout h)))
           (sint (qV_Component2 (VqdAvPIout ((FF_DataProcess misra ^^ k) h))))
           (sint (qV_Component2 (VqdAvPIout ((FF_DataProcess misra ^^ Suc k) h))))"
proof -
  define hk where "hk = (FF_DataProcess misra ^^ k) h"
  note fr = FF_DataProcess_funpow_frame [where m = misra and k = k and h = h, folded hk_def]
  have a: "if misra then 1 \<le> uint (hVqdLowPassFilterBW hk)
           else unat (hVqdLowPassFilterBWLOG hk) \<le> 16"
    using assms unfolding fr .
  have nx: "(FF_DataProcess misra ^^ Suc k) h = FF_DataProcess misra hk"
    by (simp add: hk_def)
  show ?thesis
    unfolding nx hk_def [symmetric]
    using FF_DataProcess_step [OF a] unfolding fr by blast
qed

theorem FF_DataProcess_decays_witness:
  "unat (hVqdLowPassFilterBWLOG (FF_lowpass_state 1000 (- 1000) 0 0)) \<le> 16 \<and>
   VqdAvPIout ((FF_DataProcess False ^^ 1) (FF_lowpass_state 1000 (- 1000) 0 0)) =
     \<lparr>qV_Component1 = 250, qV_Component2 = - 250\<rparr> \<and>
   VqdAvPIout ((FF_DataProcess False ^^ Suc 1) (FF_lowpass_state 1000 (- 1000) 0 0)) =
     \<lparr>qV_Component1 = 437, qV_Component2 = - 438\<rparr> \<and>
   decays_towards 4 1000 250 437 \<and> decays_towards 4 (- 1000) (- 250) (- 438)"
  using FF_DataProcess_decays [where misra = False and h = "FF_lowpass_state 1000 (- 1000) 0 0" and k = 1]
  by (simp add: FF_eval)

subsection \<open>The rolling sum of the speed buffer\<close>

lemma sint16_add:
  "- 32768 \<le> sint a + sint b \<Longrightarrow> sint a + sint b \<le> 32767 \<Longrightarrow>
   sint (a + b :: 16 word) = sint a + sint b"
  by (simp add: sint_word_ariths signed_take_bit_int_eq_self)

lemma sint16_diff:
  "- 32768 \<le> sint a - sint b \<Longrightarrow> sint a - sint b \<le> 32767 \<Longrightarrow>
   sint (a - b :: 16 word) = sint a - sint b"
  by (simp add: sint_word_ariths signed_take_bit_int_eq_self)

lemma unat8_range: "unat (x :: 8 word) \<le> 255"
proof -
  have "unat x < 2 ^ LENGTH(8)" by (rule unsigned_less)
  then show ?thesis by simp
qed

lemma sint_ucast_8_16_nat: "sint (ucast (x :: 8 word) :: 16 word) = int (unat x)"
  by (simp add: sint_ucast_8_16)

lemma unat_of_sint16: "0 \<le> sint (x :: 16 word) \<Longrightarrow> unat x = nat (sint x)"
proof -
  assume a: "0 \<le> sint x"
  have "uint x = take_bit 16 (sint x)"
    using uint_sint [of x] by simp
  also have "\<dots> = sint x"
    using a sint16_range [of x] by (intro take_bit_int_eq_self) auto
  finally show ?thesis by (simp add: unat_eq_nat_uint)
qed

lemma unat_ucast_8_16: "unat (ucast (x :: 8 word) :: 16 word) = unat x"
  using unat_of_sint16 [of "ucast x :: 16 word"] by (simp add: sint_ucast_8_16_nat)

text \<open>The push.\<close>

lemma STO_Store_Rotor_Speed_sem:
  assumes "unat (Speed_Buffer_Index h) < unat (SpeedBufferSize01Hz h)"
  shows "unat (Speed_Buffer_Index (STO_Store_Rotor_Speed h s)) =
           Suc (unat (Speed_Buffer_Index h)) mod unat (SpeedBufferSize01Hz h)"
    and "Speed_Buffer (STO_Store_Rotor_Speed h s) =
           (Speed_Buffer h)[Suc (unat (Speed_Buffer_Index h)) mod unat (SpeedBufferSize01Hz h) := s]"
    and "SpeedBufferOldestEl (STO_Store_Rotor_Speed h s) =
           Speed_Buffer h ! (Suc (unat (Speed_Buffer_Index h)) mod unat (SpeedBufferSize01Hz h))"
proof -
  define i where "i = unat (Speed_Buffer_Index h)"
  define n where "n = unat (SpeedBufferSize01Hz h)"
  have n: "n \<le> 255" unfolding n_def by (rule unat8_range)
  have i: "i < n" using assms by (simp add: i_def n_def)
  have "unat (Speed_Buffer_Index h) + unat (1 :: 8 word) < 2 ^ LENGTH(8)"
    using i n by (simp add: i_def)
  then have u: "unat (Speed_Buffer_Index h + 1) = Suc i"
    using unat_add_lem [of "Speed_Buffer_Index h" 1] by (simp add: i_def)
  have eq: "(Speed_Buffer_Index h + 1 = SpeedBufferSize01Hz h) \<longleftrightarrow> Suc i = n"
    by (simp add: word_unat_eq_iff u n_def)
  have m: "unat (if Speed_Buffer_Index h + 1 = SpeedBufferSize01Hz h then 0 else Speed_Buffer_Index h + 1)
             = Suc i mod n"
    using i by (auto simp: eq u)
  show "unat (Speed_Buffer_Index (STO_Store_Rotor_Speed h s)) =
           Suc (unat (Speed_Buffer_Index h)) mod unat (SpeedBufferSize01Hz h)"
    using m by (simp add: STO_Store_Rotor_Speed_def Let_def i_def n_def)
  show "Speed_Buffer (STO_Store_Rotor_Speed h s) =
           (Speed_Buffer h)[Suc (unat (Speed_Buffer_Index h)) mod unat (SpeedBufferSize01Hz h) := s]"
    using m by (simp add: STO_Store_Rotor_Speed_def Let_def i_def n_def)
  show "SpeedBufferOldestEl (STO_Store_Rotor_Speed h s) =
           Speed_Buffer h ! (Suc (unat (Speed_Buffer_Index h)) mod unat (SpeedBufferSize01Hz h))"
    using m by (simp add: STO_Store_Rotor_Speed_def Let_def i_def n_def)
qed

lemma STO_Store_Rotor_Speed_frame:
  "SpeedBufferSize01Hz (STO_Store_Rotor_Speed h s) = SpeedBufferSize01Hz h"
  "SpeedBufferSizedpp (STO_Store_Rotor_Speed h s) = SpeedBufferSizedpp h"
  "SpeedBufferSizedppLOG (STO_Store_Rotor_Speed h s) = SpeedBufferSizedppLOG h"
  "DppBufferSum (STO_Store_Rotor_Speed h s) = DppBufferSum h"
  by (simp_all add: STO_Store_Rotor_Speed_def Let_def)

text \<open>The average.\<close>

lemma STO_CalcAvrgElSpeedDpp_frame:
  "SpeedBufferSize01Hz (STO_CalcAvrgElSpeedDpp m h) = SpeedBufferSize01Hz h"
  "SpeedBufferSizedpp (STO_CalcAvrgElSpeedDpp m h) = SpeedBufferSizedpp h"
  "SpeedBufferSizedppLOG (STO_CalcAvrgElSpeedDpp m h) = SpeedBufferSizedppLOG h"
  "Speed_Buffer (STO_CalcAvrgElSpeedDpp m h) = Speed_Buffer h"
  "Speed_Buffer_Index (STO_CalcAvrgElSpeedDpp m h) = Speed_Buffer_Index h"
  by (simp_all add: STO_CalcAvrgElSpeedDpp_def Let_def)

lemma STO_CalcAvrgElSpeedDpp_speed:
  "hElSpeedDpp (Super (STO_CalcAvrgElSpeedDpp m h)) =
     scast (div_or_shift m (DppBufferSum (STO_CalcAvrgElSpeedDpp m h))
              (scast (ucast (SpeedBufferSizedpp h) :: int16_t)) (unat (SpeedBufferSizedppLOG h)))"
  by (simp add: STO_CalcAvrgElSpeedDpp_def Let_def)

lemma STO_CalcAvrgElSpeedDpp_sum:
  assumes i: "unat (Speed_Buffer_Index h) < unat (SpeedBufferSize01Hz h)"
      and d: "unat (SpeedBufferSizedpp h) \<le> unat (SpeedBufferSize01Hz h)"
  shows "DppBufferSum (STO_CalcAvrgElSpeedDpp m h) =
           DppBufferSum h + scast (Speed_Buffer h ! unat (Speed_Buffer_Index h))
             - scast (if unat (SpeedBufferSize01Hz h) = unat (SpeedBufferSizedpp h)
                      then SpeedBufferOldestEl h
                      else Speed_Buffer h ! ((unat (Speed_Buffer_Index h) + unat (SpeedBufferSize01Hz h)
                                               - unat (SpeedBufferSizedpp h)) mod unat (SpeedBufferSize01Hz h)))"
proof -
  define ix where "ix = unat (Speed_Buffer_Index h)"
  define n1 where "n1 = unat (SpeedBufferSize01Hz h)"
  define nd where "nd = unat (SpeedBufferSizedpp h)"
  define hIndexNew where "hIndexNew = (ucast (Speed_Buffer_Index h) :: int16_t)"
  define hSize01 where "hSize01 = (ucast (SpeedBufferSize01Hz h) :: int16_t)"
  define hSizedpp where "hSizedpp = (ucast (SpeedBufferSizedpp h) :: int16_t)"
  have b: "ix < n1" "nd \<le> n1" "n1 \<le> 255"
    using i d unat8_range [of "SpeedBufferSize01Hz h"] by (simp_all add: ix_def n1_def nd_def)
  have s: "sint hIndexNew = int ix" "sint hSize01 = int n1" "sint hSizedpp = int nd"
    by (simp_all add: hIndexNew_def hSize01_def hSizedpp_def sint_ucast_8_16_nat ix_def n1_def nd_def)
  have sd: "sint (hSize01 - hSizedpp) = int n1 - int nd"
    using b by (subst sint16_diff) (simp_all add: s)
  have d0: "(hSize01 - hSizedpp = 0) \<longleftrightarrow> n1 = nd"
  proof
    assume "hSize01 - hSizedpp = 0"
    then have "sint (hSize01 - hSizedpp) = 0" by simp
    then show "n1 = nd" using sd by simp
  next
    assume "n1 = nd"
    then have "sint (hSize01 - hSizedpp) = sint (0 :: 16 word)" using sd by simp
    then show "hSize01 - hSizedpp = 0" by (rule signed_word_eqI)
  qed
  have d0': "(hSize01 = hSizedpp) \<longleftrightarrow> n1 = nd"
    using d0 by simp
  have st: "sint (hIndexNew + (hSize01 - hSizedpp)) = int ix + (int n1 - int nd)"
    using b by (subst sint16_add) (simp_all add: s sd)
  have cmp: "(hSize01 \<le>s hIndexNew + (hSize01 - hSizedpp)) \<longleftrightarrow> nd \<le> ix"
    by (simp add: word_sle_eq st s)
  have st2: "sint (hIndexNew + (hSize01 - hSizedpp) - hSize01) = int ix - int nd" if "nd \<le> ix"
    using b that by (subst sint16_diff) (simp_all add: s st)
  have un: "unat hIndexNew = ix"
    by (simp add: hIndexNew_def unat_ucast_8_16 ix_def)
  have old: "unat (if hSize01 \<le>s hIndexNew + (hSize01 - hSizedpp)
                   then hIndexNew + (hSize01 - hSizedpp) - hSize01
                   else hIndexNew + (hSize01 - hSizedpp)) = (ix + n1 - nd) mod n1"
  proof (cases "nd \<le> ix")
    case True
    then have "(ix + n1 - nd) mod n1 = ix - nd"
      using b by (simp add: mod_if)
    moreover have "unat (hIndexNew + (hSize01 - hSizedpp) - hSize01) = ix - nd"
      using True st2 by (subst unat_of_sint16) simp_all
    ultimately show ?thesis using True by (simp add: cmp)
  next
    case False
    then have "(ix + n1 - nd) mod n1 = ix + n1 - nd"
      using b by simp
    moreover have "unat (hIndexNew + (hSize01 - hSizedpp)) = ix + n1 - nd"
      using False b st by (subst unat_of_sint16) (simp_all add: nat_diff_distrib nat_add_distrib)
    ultimately show ?thesis using False by (simp add: cmp)
  qed
  show ?thesis
    unfolding STO_CalcAvrgElSpeedDpp_def Let_def
      hIndexNew_def [symmetric] hSize01_def [symmetric] hSizedpp_def [symmetric]
      ix_def [symmetric] n1_def [symmetric] nd_def [symmetric]
    by (simp add: d0 d0' old un)
qed

lemma speed_sample_Cons [simp]:
  "speed_sample (s # hist) 0 = s"
  "speed_sample (s # hist) (Suc j) = speed_sample hist j"
  by (simp_all add: speed_sample_def)

lemma speed_sum_bounds:
  "- (32768 * int n) \<le> (\<Sum>j < n. sint (speed_sample hist j)) \<and>
   (\<Sum>j < n. sint (speed_sample hist j)) \<le> 32767 * int n"
proof
  have "(\<Sum>j < n. - 32768) \<le> (\<Sum>j < n. sint (speed_sample hist j))"
    using sint16_range by (intro sum_mono) auto
  then show "- (32768 * int n) \<le> (\<Sum>j < n. sint (speed_sample hist j))" by simp
  have "(\<Sum>j < n. sint (speed_sample hist j)) \<le> (\<Sum>j < n. 32767)"
    using sint16_range by (intro sum_mono) auto
  then show "(\<Sum>j < n. sint (speed_sample hist j)) \<le> 32767 * int n" by simp
qed

lemma mod_shift_neq:
  fixes a c n :: nat
  assumes "0 < c" "c < n"
  shows "(a + c) mod n \<noteq> a mod n"
proof
  assume "(a + c) mod n = a mod n"
  then have "n dvd (a + c) - a"
    by (subst (asm) mod_eq_dvd_iff_nat) auto
  then have "n dvd c" by simp
  then show False using assms by (auto dest: dvd_imp_le)
qed

lemma slot_shift:
  fixes ix n j :: nat
  assumes "Suc j \<le> n"
  shows "(Suc ix mod n + n - Suc j) mod n = (ix + n - j) mod n"
proof -
  have "(Suc ix mod n + n - Suc j) = Suc ix mod n + (n - Suc j)"
    using assms by simp
  then have "(Suc ix mod n + n - Suc j) mod n = (Suc ix mod n + (n - Suc j)) mod n"
    by simp
  also have "\<dots> = (Suc ix + (n - Suc j)) mod n"
    by (rule mod_add_left_eq)
  also have "Suc ix + (n - Suc j) = ix + n - j"
    using assms by simp
  finally show ?thesis .
qed

lemma slot_newest:
  fixes ix n j :: nat
  assumes "Suc j < n"
  shows "(ix + n - j) mod n \<noteq> Suc ix mod n"
proof -
  have "ix + n - j = Suc ix + (n - Suc j)" using assms by simp
  moreover have "(Suc ix + (n - Suc j)) mod n \<noteq> Suc ix mod n"
    using assms by (intro mod_shift_neq) auto
  ultimately show ?thesis by simp
qed

lemma speed_buffer_inv_step:
  assumes inv: "speed_buffer_inv h hist"
  shows "speed_buffer_inv (STO_CalcAvrgElSpeedDpp m (STO_Store_Rotor_Speed h s)) (s # hist)"
proof -
  define n1 where "n1 = unat (SpeedBufferSize01Hz h)"
  define nd where "nd = unat (SpeedBufferSizedpp h)"
  define ix where "ix = unat (Speed_Buffer_Index h)"
  define buf where "buf = Speed_Buffer h"
  define ix1 where "ix1 = Suc ix mod n1"
  define h1 where "h1 = STO_Store_Rotor_Speed h s"
  define h2 where "h2 = STO_CalcAvrgElSpeedDpp m h1"
  have sz: "1 \<le> nd" "nd \<le> n1" "n1 \<le> length buf" "ix < n1"
    and slots: "\<And>j. j < n1 \<Longrightarrow> buf ! ((ix + n1 - j) mod n1) = speed_sample hist j"
    and sum: "sint (DppBufferSum h) = (\<Sum>j < nd. sint (speed_sample hist j))"
    using inv by (auto simp: speed_buffer_inv_def n1_def nd_def ix_def buf_def)
  have n1: "n1 \<le> 255" unfolding n1_def by (rule unat8_range)
  have ix1: "ix1 < n1" using sz by (simp add: ix1_def)
  have ixl: "Suc ix mod n1 < length buf"
    using ix1 sz(3) unfolding ix1_def by (rule order_less_le_trans)
  have p: "unat (Speed_Buffer_Index h) < unat (SpeedBufferSize01Hz h)"
    using sz by (simp add: ix_def n1_def)
  note push = STO_Store_Rotor_Speed_sem [OF p, of s, folded h1_def ix_def n1_def buf_def ix1_def]
  note pfr = STO_Store_Rotor_Speed_frame [of h s, folded h1_def]
  have p1: "unat (Speed_Buffer_Index h1) < unat (SpeedBufferSize01Hz h1)"
    using ix1 by (simp add: push pfr n1_def [symmetric] ix1_def)
  have d1: "unat (SpeedBufferSizedpp h1) \<le> unat (SpeedBufferSize01Hz h1)"
    using sz by (simp add: pfr n1_def [symmetric] nd_def [symmetric])
  note avg = STO_CalcAvrgElSpeedDpp_sum [OF p1 d1, of m, folded h2_def]
  note afr = STO_CalcAvrgElSpeedDpp_frame [of m h1, folded h2_def]
  have new_slots: "buf[ix1 := s] ! ((ix1 + n1 - j) mod n1) = speed_sample (s # hist) j" if "j < n1" for j
  proof (cases j)
    case 0
    then show ?thesis using ix1 sz by simp
  next
    case (Suc j')
    have e: "(ix1 + n1 - Suc j') mod n1 = (ix + n1 - j') mod n1"
      unfolding ix1_def using that Suc by (intro slot_shift) simp
    have ne: "(ix + n1 - j') mod n1 \<noteq> ix1"
      unfolding ix1_def using that Suc by (intro slot_newest) simp
    show ?thesis
      using ne slots [of j'] that Suc by (simp add: e)
  qed
  have removed: "(if unat (SpeedBufferSize01Hz h1) = unat (SpeedBufferSizedpp h1)
                  then SpeedBufferOldestEl h1
                  else Speed_Buffer h1 ! ((unat (Speed_Buffer_Index h1) + unat (SpeedBufferSize01Hz h1)
                                               - unat (SpeedBufferSizedpp h1)) mod unat (SpeedBufferSize01Hz h1)))
                 = speed_sample hist (nd - 1)"
  proof (cases "n1 = nd")
    case True
    have "buf ! ix1 = buf ! ((ix + n1 - (n1 - 1)) mod n1)"
      using sz by (simp add: ix1_def)
    also have "\<dots> = speed_sample hist (n1 - 1)"
      using sz by (intro slots) simp
    finally have "buf ! ix1 = speed_sample hist (nd - 1)"
      using True by simp
    then have "SpeedBufferOldestEl h1 = speed_sample hist (nd - 1)"
      by (simp add: push ix1_def)
    moreover have "unat (SpeedBufferSize01Hz h1) = unat (SpeedBufferSizedpp h1)"
      using True by (simp add: pfr n1_def [symmetric] nd_def [symmetric])
    ultimately show ?thesis by simp
  next
    case False
    then have "nd < n1" using sz by simp
    from new_slots [OF this] have "buf[ix1 := s] ! ((ix1 + n1 - nd) mod n1) = speed_sample hist (nd - 1)"
      using sz by (cases nd) simp_all
    moreover have "unat (SpeedBufferSize01Hz h1) \<noteq> unat (SpeedBufferSizedpp h1)"
      using False by (simp add: pfr n1_def [symmetric] nd_def [symmetric])
    ultimately show ?thesis
      by (simp add: push pfr n1_def [symmetric] nd_def [symmetric] ix1_def)
  qed
  have newest: "Speed_Buffer h1 ! unat (Speed_Buffer_Index h1) = s"
    using ixl by (simp add: push ix1_def)
  have sum2w: "DppBufferSum h2 = DppBufferSum h + scast s - scast (speed_sample hist (nd - 1))"
    unfolding avg removed newest by (simp add: pfr)
  have split_old: "(\<Sum>j < nd. sint (speed_sample hist j)) =
                     (\<Sum>j < nd - 1. sint (speed_sample hist j)) + sint (speed_sample hist (nd - 1))"
    using sz by (cases nd) simp_all
  have split_new: "(\<Sum>j < nd. sint (speed_sample (s # hist) j)) =
                     sint s + (\<Sum>j < nd - 1. sint (speed_sample hist j))"
  proof -
    obtain k where k: "nd = Suc k" using sz by (cases nd) auto
    have "(\<Sum>j < Suc k. sint (speed_sample (s # hist) j)) =
            sint (speed_sample (s # hist) 0) + (\<Sum>j < k. sint (speed_sample (s # hist) (Suc j)))"
      by (rule sum.lessThan_Suc_shift)
    then show ?thesis by (simp add: k)
  qed
  have bnd: "- 8355840 \<le> sint (DppBufferSum h)" "sint (DppBufferSum h) \<le> 8355840"
    using speed_sum_bounds [of nd hist] sz n1 by (simp_all add: sum)
  have bnd1: "- 8355840 \<le> (\<Sum>j < nd - 1. sint (speed_sample hist j))"
             "(\<Sum>j < nd - 1. sint (speed_sample hist j)) \<le> 8355840"
    using speed_sum_bounds [of "nd - 1" hist] sz n1 by simp_all
  have a1: "sint (DppBufferSum h + scast s) = sint (DppBufferSum h) + sint s"
    using bnd sint16_range [of s] by (subst sint32_add) (simp_all add: sint_scast_16_32)
  have a2: "sint (DppBufferSum h + scast s - scast (speed_sample hist (nd - 1))) =
              sint (DppBufferSum h) + sint s - sint (speed_sample hist (nd - 1))"
    using bnd sint16_range [of s] sint16_range [of "speed_sample hist (nd - 1)"]
    by (subst sint32_diff) (simp_all add: a1 sint_scast_16_32)
  have sum2: "sint (DppBufferSum h2) = (\<Sum>j < nd. sint (speed_sample (s # hist) j))"
    unfolding sum2w a2 split_new using sum split_old by simp
  show ?thesis
    unfolding speed_buffer_inv_def h1_def [symmetric] h2_def [symmetric]
    using sz ix1 new_slots sum2
    by (simp add: afr pfr push n1_def [symmetric] nd_def [symmetric] buf_def [symmetric] ix1_def)
qed

lemma zero_fold:
  "length (fold (\<lambda>b_i buf. buf[b_i := (0 :: int16_t)]) [0..<n] buf) = length buf \<and>
   (\<forall>i < n. n \<le> length buf \<longrightarrow> fold (\<lambda>b_i buf. buf[b_i := 0]) [0..<n] buf ! i = 0)"
proof (induction n)
  case 0
  then show ?case by simp
next
  case (Suc n)
  have f: "fold (\<lambda>b_i buf. buf[b_i := (0 :: int16_t)]) [0..<Suc n] buf =
           (fold (\<lambda>b_i buf. buf[b_i := 0]) [0..<n] buf)[n := 0]"
    by simp
  show ?case
    unfolding f using Suc by (auto simp: nth_list_update less_Suc_eq)
qed

lemma STO_Clear_buffer:
  "SpeedBufferSize01Hz (STO_Clear ps h) = SpeedBufferSize01Hz h"
  "SpeedBufferSizedpp (STO_Clear ps h) = SpeedBufferSizedpp h"
  "SpeedBufferSizedppLOG (STO_Clear ps h) = SpeedBufferSizedppLOG h"
  "Speed_Buffer_Index (STO_Clear ps h) = 0"
  "DppBufferSum (STO_Clear ps h) = 0"
  "Speed_Buffer (STO_Clear ps h) =
     fold (\<lambda>b_i buf. buf[b_i := 0]) [0..<unat (SpeedBufferSize01Hz h)] (Speed_Buffer h)"
  by (simp_all add: STO_Clear_def STO_InitSpeedBuffer_def Let_def)

lemma speed_buffer_inv_Clear:
  assumes "1 \<le> unat (SpeedBufferSizedpp h)"
      and "unat (SpeedBufferSizedpp h) \<le> unat (SpeedBufferSize01Hz h)"
      and "unat (SpeedBufferSize01Hz h) \<le> length (Speed_Buffer h)"
  shows "speed_buffer_inv (STO_Clear ps h) []"
proof -
  define n1 where "n1 = unat (SpeedBufferSize01Hz h)"
  have pos: "0 < n1" using assms by (simp add: n1_def)
  have "fold (\<lambda>b_i buf. buf[b_i := 0]) [0..<n1] (Speed_Buffer h) ! ((n1 - j) mod n1) = 0" for j
    using zero_fold [of n1 "Speed_Buffer h"] assms(3) pos by (simp add: n1_def)
  then show ?thesis
    using assms zero_fold [of n1 "Speed_Buffer h"]
    by (simp add: speed_buffer_inv_def STO_Clear_buffer speed_sample_def n1_def [symmetric])
qed

lemma speed_buffer_inv_ticks:
  "speed_buffer_inv h hist \<Longrightarrow> speed_buffer_inv (STO_ticks m h ss) (rev ss @ hist)"
proof (induction ss arbitrary: h hist)
  case Nil
  then show ?case by simp
next
  case (Cons s ss)
  from Cons.IH [OF speed_buffer_inv_step [OF Cons.prems, of m s]]
  show ?case by simp
qed

lemma STO_ticks_frame:
  "SpeedBufferSize01Hz (STO_ticks m h ss) = SpeedBufferSize01Hz h \<and>
   SpeedBufferSizedpp (STO_ticks m h ss) = SpeedBufferSizedpp h \<and>
   SpeedBufferSizedppLOG (STO_ticks m h ss) = SpeedBufferSizedppLOG h"
  by (induction ss arbitrary: h)
     (simp_all add: STO_CalcAvrgElSpeedDpp_frame STO_Store_Rotor_Speed_frame)

lemma STO_ticks_snoc:
  "STO_ticks m h (ss @ [s]) = STO_CalcAvrgElSpeedDpp m (STO_Store_Rotor_Speed (STO_ticks m h ss) s)"
  by (induction ss arbitrary: h) simp_all

lemma STO_ticks_speed:
  assumes "ss \<noteq> []"
  shows "hElSpeedDpp (Super (STO_ticks m h ss)) =
     scast (div_or_shift m (DppBufferSum (STO_ticks m h ss))
              (scast (ucast (SpeedBufferSizedpp h) :: int16_t)) (unat (SpeedBufferSizedppLOG h)))"
proof -
  obtain ss' s where ss: "ss = ss' @ [s]"
    using assms by (cases ss rule: rev_cases) auto
  show ?thesis
    unfolding ss STO_ticks_snoc
    by (subst STO_CalcAvrgElSpeedDpp_speed)
       (simp add: STO_Store_Rotor_Speed_frame STO_ticks_frame)
qed

lemma speed_window_sum:
  assumes "n \<le> length xs"
  shows "(\<Sum>j < n. sint (speed_sample xs j)) = sum_list (map sint (take n xs))"
proof -
  have "sum_list (map sint (take n xs)) = (\<Sum>j = 0..<length (take n xs). map sint (take n xs) ! j)"
    by (subst sum_list_sum_nth) simp
  also have "\<dots> = (\<Sum>j = 0..<n. sint (speed_sample xs j))"
    using assms by (intro sum.cong) (auto simp: speed_sample_def)
  finally show ?thesis by (simp add: lessThan_atLeast0)
qed

lemma avg_range:
  fixes w n :: int
  assumes "1 \<le> n" "- (32768 * n) \<le> w" "w \<le> 32767 * n"
  shows "- 32768 \<le> w div n \<and> w div n \<le> 32767 \<and> - 32768 \<le> w sdiv n \<and> w sdiv n \<le> 32767"
proof -
  have n0: "0 < n" using assms by simp
  have cancel: "(K * n) div n = K" for K :: int using n0 by simp
  have up: "w div n \<le> 32767"
    using zdiv_mono1 [OF assms(3) n0] cancel [of 32767] by simp
  have "(- 32768) * n \<le> w" using assms(2) by simp
  from zdiv_mono1 [OF this n0] have lo: "- 32768 \<le> w div n"
    unfolding cancel .
  have "- w \<le> 32768 * n" using assms(2) by simp
  from zdiv_mono1 [OF this n0] have nlo: "(- w) div n \<le> 32768"
    unfolding cancel .
  have npos: "w < 0 \<Longrightarrow> 0 \<le> (- w) div n"
    using n0 by (simp add: pos_imp_zdiv_nonneg_iff)
  show ?thesis
    using up lo nlo npos by (auto simp: sdiv_eq_cases [OF n0])
qed

text \<open>
  Claim C5.  Start from a cleared observer whose buffer sizes satisfy
  \<open>1 \<le> SpeedBufferSizedpp \<le> SpeedBufferSize01Hz\<close> and fit the buffer.  After any
  \<open>k \<ge> SpeedBufferSizedpp\<close> alternating pushes and averaging calls, \<open>DppBufferSum\<close> is
  the sum of the \<open>SpeedBufferSizedpp\<close> most recently stored speeds, and the published
  \<open>hElSpeedDpp\<close> is that sum divided by \<open>SpeedBufferSizedpp\<close> (truncated in the division
  form; rounded down in the shift form, where the shift is the logarithm of the size).
  The two sizes may be equal (the leaving speed is the snapshot \<open>SpeedBufferOldestEl\<close>)
  or differ (it is read from the buffer).
\<close>

theorem STO_speed_buffer_rolling_sum:
  assumes "1 \<le> unat (SpeedBufferSizedpp h)"
      and "unat (SpeedBufferSizedpp h) \<le> unat (SpeedBufferSize01Hz h)"
      and "unat (SpeedBufferSize01Hz h) \<le> length (Speed_Buffer h)"
      and "unat (SpeedBufferSizedpp h) \<le> length ss"
      and "misra \<or> unat (SpeedBufferSizedpp h) = 2 ^ unat (SpeedBufferSizedppLOG h)"
  shows "sint (DppBufferSum (STO_ticks misra (STO_Clear pid_set h) ss)) =
           sum_list (map sint (take (unat (SpeedBufferSizedpp h)) (rev ss))) \<and>
         sint (hElSpeedDpp (Super (STO_ticks misra (STO_Clear pid_set h) ss))) =
           (if misra
            then sum_list (map sint (take (unat (SpeedBufferSizedpp h)) (rev ss)))
                   sdiv int (unat (SpeedBufferSizedpp h))
            else sum_list (map sint (take (unat (SpeedBufferSizedpp h)) (rev ss)))
                   div int (unat (SpeedBufferSizedpp h)))"
proof -
  define nd where "nd = unat (SpeedBufferSizedpp h)"
  define h' where "h' = STO_ticks misra (STO_Clear pid_set h) ss"
  define w where "w = sum_list (map sint (take nd (rev ss)))"
  have inv: "speed_buffer_inv h' (rev ss)"
    using speed_buffer_inv_ticks [OF speed_buffer_inv_Clear [OF assms(1-3), of pid_set], of misra ss]
    by (simp add: h'_def)
  have nd': "unat (SpeedBufferSizedpp h') = nd"
    by (simp add: h'_def STO_ticks_frame STO_Clear_buffer nd_def)
  have win: "(\<Sum>j < nd. sint (speed_sample (rev ss) j)) = w"
    unfolding w_def using assms(4) by (intro speed_window_sum) (simp add: nd_def)
  have sum: "sint (DppBufferSum h') = w"
    using inv by (simp add: speed_buffer_inv_def nd' win)
  have ndn: "1 \<le> nd" "nd \<le> 255"
    using assms(1) unat8_range [of "SpeedBufferSizedpp h"] by (simp_all add: nd_def)
  have nd1: "1 \<le> int nd" "int nd \<le> 255"
    using ndn by simp_all
  have wb: "- (32768 * int nd) \<le> w" "w \<le> 32767 * int nd"
    using speed_sum_bounds [of nd "rev ss"] by (simp_all add: win)
  note r = avg_range [OF nd1(1) wb]
  have ne: "ss \<noteq> []" using assms(1,4) by auto
  have sp: "hElSpeedDpp (Super h') =
     scast (div_or_shift misra (DppBufferSum h')
              (scast (ucast (SpeedBufferSizedpp h) :: int16_t)) (unat (SpeedBufferSizedppLOG h)))"
    unfolding h'_def by (subst STO_ticks_speed [OF ne]) (simp add: STO_Clear_buffer)
  have dv: "sint (scast (ucast (SpeedBufferSizedpp h) :: int16_t) :: int32_t) = int nd"
    by (simp add: sint_scast_16_32 sint_ucast_8_16_nat nd_def)
  have q: "sint (div_or_shift misra (DppBufferSum h')
              (scast (ucast (SpeedBufferSizedpp h) :: int16_t)) (unat (SpeedBufferSizedppLOG h)))
           = (if misra then w sdiv int nd else w div int nd)"
  proof (cases misra)
    case True
    then show ?thesis
      using r by (simp add: div_or_shift_def sint_c_div dv sum)
  next
    case False
    then have "nd = 2 ^ unat (SpeedBufferSizedppLOG h)"
      using assms(5) by (simp add: nd_def)
    then have "int nd = 2 ^ unat (SpeedBufferSizedppLOG h)"
      by simp
    then show ?thesis
      using False by (simp add: div_or_shift_def sint_asr sum)
  qed
  have "sint (hElSpeedDpp (Super h')) = (if misra then w sdiv int nd else w div int nd)"
    unfolding sp using r by (subst sint_scast_32_16) (auto simp: q)
  then show ?thesis
    using sum by (simp add: h'_def [symmetric] nd_def [symmetric] w_def [symmetric])
qed

lemma STO_buffer_state_sizes:
  "unat (SpeedBufferSizedpp (STO_buffer_state a b c)) = unat b"
  "unat (SpeedBufferSize01Hz (STO_buffer_state a b c)) = unat a"
  "unat (SpeedBufferSizedppLOG (STO_buffer_state a b c)) = unat c"
  "length (Speed_Buffer (STO_buffer_state a b c)) = 64"
  by (simp_all add: STO_buffer_state_def STO_zero_def)

theorem STO_speed_buffer_rolling_sum_witness:
  "1 \<le> unat (SpeedBufferSizedpp (STO_buffer_state 4 2 1)) \<and>
   unat (SpeedBufferSizedpp (STO_buffer_state 4 2 1)) \<le> unat (SpeedBufferSize01Hz (STO_buffer_state 4 2 1)) \<and>
   unat (SpeedBufferSize01Hz (STO_buffer_state 4 2 1)) \<le> length (Speed_Buffer (STO_buffer_state 4 2 1)) \<and>
   unat (SpeedBufferSizedpp (STO_buffer_state 4 2 1)) \<le> length [10, - 20, 30 :: int16_t] \<and>
   unat (SpeedBufferSizedpp (STO_buffer_state 2 2 1)) = 2 ^ unat (SpeedBufferSizedppLOG (STO_buffer_state 2 2 1)) \<and>
   sint (DppBufferSum (STO_ticks False (STO_Clear PID_SetIntegralTerm_unit (STO_buffer_state 2 2 1)) [10, - 20, 30])) = 10 \<and>
   sint (hElSpeedDpp (Super (STO_ticks False (STO_Clear PID_SetIntegralTerm_unit (STO_buffer_state 2 2 1)) [10, - 20, 30]))) = 5 \<and>
   sint (DppBufferSum (STO_ticks True (STO_Clear PID_SetIntegralTerm_unit (STO_buffer_state 4 2 1)) [10, - 20, 30])) = 10 \<and>
   sint (hElSpeedDpp (Super (STO_ticks True (STO_Clear PID_SetIntegralTerm_unit (STO_buffer_state 4 2 1)) [10, - 20, 30]))) = 5"
proof -
  have l: "sum_list (map sint (take 2 (rev [10, - 20, 30 :: int16_t]))) = 10"
    by simp
  have d: "(10 :: int) sdiv 2 = 5"
    by (simp add: signed_divide_int_def)
  have shift: "sint (DppBufferSum (STO_ticks False (STO_Clear PID_SetIntegralTerm_unit (STO_buffer_state 2 2 1)) [10, - 20, 30])) = 10 \<and>
   sint (hElSpeedDpp (Super (STO_ticks False (STO_Clear PID_SetIntegralTerm_unit (STO_buffer_state 2 2 1)) [10, - 20, 30]))) = 5"
    using STO_speed_buffer_rolling_sum [of "STO_buffer_state 2 2 1" "[10, - 20, 30]" False PID_SetIntegralTerm_unit]
    unfolding STO_buffer_state_sizes by (simp add: l)
  have division: "sint (DppBufferSum (STO_ticks True (STO_Clear PID_SetIntegralTerm_unit (STO_buffer_state 4 2 1)) [10, - 20, 30])) = 10 \<and>
   sint (hElSpeedDpp (Super (STO_ticks True (STO_Clear PID_SetIntegralTerm_unit (STO_buffer_state 4 2 1)) [10, - 20, 30]))) = 5"
    using STO_speed_buffer_rolling_sum [of "STO_buffer_state 4 2 1" "[10, - 20, 30]" True PID_SetIntegralTerm_unit]
    unfolding STO_buffer_state_sizes by (simp add: l d)
  show ?thesis
    unfolding STO_buffer_state_sizes using shift division by simp
qed

subsection \<open>The division form and the shift form\<close>

lemma sdiv_pos_eq_div:
  fixes k d :: int
  assumes "0 < d"
  shows "k sdiv d = k div d + (if k < 0 \<and> \<not> d dvd k then 1 else 0)"
proof (cases "0 \<le> k")
  case True
  then show ?thesis using assms by (simp add: sdiv_eq_cases)
next
  case False
  have d0: "d \<noteq> 0" using assms by simp
  have "k sdiv d = - ((- k) div d)"
    using False assms by (simp add: sdiv_eq_cases)
  also have "\<dots> = (if k mod d = 0 then k div d else k div d + 1)"
    unfolding zdiv_zminus1_eq_if [OF d0] by simp
  finally show ?thesis
    using False by (simp add: dvd_eq_mod_eq_0)
qed

lemma div_or_shift_forms:
  assumes d: "sint d = 2 ^ n"
  shows "div_or_shift True x d n =
           div_or_shift False x d n + (if sint x < 0 \<and> \<not> 2 ^ n dvd sint x then 1 else 0)"
proof -
  have s: "signed_drop_bit n x = word_of_int (sint x div 2 ^ n)"
  proof -
    have "word_of_int (sint (signed_drop_bit n x)) = signed_drop_bit n x"
      by simp
    then show ?thesis
      by (simp only: sint_asr)
  qed
  have "c_div x d = word_of_int (sint x sdiv 2 ^ n)"
    by (simp add: c_div_def d)
  also have "\<dots> = word_of_int (sint x div 2 ^ n + (if sint x < 0 \<and> \<not> 2 ^ n dvd sint x then 1 else 0))"
    by (subst sdiv_pos_eq_div) simp_all
  also have "\<dots> = signed_drop_bit n x + (if sint x < 0 \<and> \<not> 2 ^ n dvd sint x then 1 else 0)"
    unfolding s by simp
  finally show ?thesis
    by (simp add: div_or_shift_def)
qed


lemma STO_CalcAvrgElSpeedDpp_form:
  "STO_CalcAvrgElSpeedDpp m h =
     h\<lparr>Super := (Super h)\<lparr>hElSpeedDpp := hElSpeedDpp (Super (STO_CalcAvrgElSpeedDpp m h))\<rparr>,
       DppBufferSum := DppBufferSum (STO_CalcAvrgElSpeedDpp m h)\<rparr>"
  by (simp add: STO_CalcAvrgElSpeedDpp_def Let_def)

lemma STO_CalcAvrgElSpeedDpp_sum_form:
  "DppBufferSum (STO_CalcAvrgElSpeedDpp m h) = DppBufferSum (STO_CalcAvrgElSpeedDpp False h)"
  by (simp add: STO_CalcAvrgElSpeedDpp_def Let_def)

lemma STO_CalcAvrgElSpeedDpp_forms:
  assumes p: "unat (SpeedBufferSizedpp h) = 2 ^ unat (SpeedBufferSizedppLOG h)"
      and s: "0 \<le> sint (DppBufferSum (STO_CalcAvrgElSpeedDpp False h)) \<or>
              2 ^ unat (SpeedBufferSizedppLOG h) dvd sint (DppBufferSum (STO_CalcAvrgElSpeedDpp False h))"
  shows "STO_CalcAvrgElSpeedDpp True h = STO_CalcAvrgElSpeedDpp False h"
proof -
  define S where "S = DppBufferSum (STO_CalcAvrgElSpeedDpp False h)"
  define d :: int32_t where "d = scast (ucast (SpeedBufferSizedpp h) :: int16_t)"
  define k where "k = unat (SpeedBufferSizedppLOG h)"
  have "sint d = int (unat (SpeedBufferSizedpp h))"
    unfolding d_def by (simp only: sint_scast_16_32 sint_ucast_8_16_nat)
  then have d: "sint d = 2 ^ k"
    unfolding p k_def by simp
  have "div_or_shift True S d k = div_or_shift False S d k"
    using s unfolding div_or_shift_forms [OF d] S_def [symmetric] k_def [symmetric] by auto
  then have "hElSpeedDpp (Super (STO_CalcAvrgElSpeedDpp True h)) =
             hElSpeedDpp (Super (STO_CalcAvrgElSpeedDpp False h))"
    unfolding STO_CalcAvrgElSpeedDpp_speed STO_CalcAvrgElSpeedDpp_sum_form [of True]
    by (simp add: S_def d_def k_def)
  then show ?thesis
    by (subst STO_CalcAvrgElSpeedDpp_form, subst (2) STO_CalcAvrgElSpeedDpp_form)
       (simp add: STO_CalcAvrgElSpeedDpp_sum_form [of True])
qed

lemma FF_DataProcess_form:
  "FF_DataProcess m h =
     h\<lparr>VqdAvPIout := \<lparr>qV_Component1 = qV_Component1 (VqdAvPIout (FF_DataProcess m h)),
                       qV_Component2 = qV_Component2 (VqdAvPIout (FF_DataProcess m h))\<rparr>\<rparr>"
  by (simp add: FF_DataProcess_def Let_def)

lemma pow2_uint16:
  assumes "uint (N :: 16 word) = 2 ^ k"
  shows "k \<le> 15"
proof (rule ccontr)
  assume "\<not> k \<le> 15"
  then have "16 \<le> k" by simp
  then have "(2 :: int) ^ 16 \<le> 2 ^ k"
    by (intro power_increasing) auto
  moreover have "uint N < 2 ^ 16"
    using uint_lt2p [of N] by simp
  ultimately show False
    using assms by simp
qed

lemma lowpass_forms:
  fixes V v N :: "16 word"
  assumes N: "uint N = 2 ^ k"
      and n: "0 \<le> sint V * (2 ^ k - 1) + sint v \<or> 2 ^ k dvd sint V * (2 ^ k - 1) + sint v"
  shows "c_div (scast V * (ucast N - 1) + scast v) (ucast N) =
         signed_drop_bit k (push_bit k (scast V) - scast V + scast v :: int32_t)"
proof -
  have k: "k \<le> 15"
    using N by (rule pow2_uint16)
  have p: "(1 :: int) \<le> 2 ^ k" by simp
  have p2: "(2 :: int) ^ k \<le> 32768"
    using k power_increasing [of k 15 "2 :: int"] by simp
  have sN: "sint (ucast N :: int32_t) = 2 ^ k"
    unfolding sint_ucast_16_32 by (rule N)
  have w: "(push_bit k (scast V) - scast V + scast v :: int32_t) = scast V * (ucast N - 1) + scast v"
  proof -
    have "sint (ucast N :: int32_t) = sint (2 ^ k :: int32_t)"
      unfolding sN using k by (simp add: sint_pow2_32)
    then have "(ucast N :: int32_t) = 2 ^ k"
      by (rule signed_word_eqI)
    then show ?thesis
      by (simp add: push_bit_eq_mult algebra_simps)
  qed
  have num: "sint (scast V * (ucast N - 1) + scast v :: int32_t) = sint V * (2 ^ k - 1) + sint v"
    using p p2 by (intro sint_lowpass_num sN) auto
  have "div_or_shift True (scast V * (ucast N - 1) + scast v) (ucast N) k =
        div_or_shift False (scast V * (ucast N - 1) + scast v) (ucast N) k"
    using n unfolding div_or_shift_forms [OF sN] num by auto
  then show ?thesis
    unfolding w by (simp add: div_or_shift_def)
qed

lemma FF_DataProcess_forms:
  assumes N: "uint (hVqdLowPassFilterBW h) = 2 ^ unat (hVqdLowPassFilterBWLOG h)"
      and q: "0 \<le> sint (qV_Component1 (VqdAvPIout h)) * (2 ^ unat (hVqdLowPassFilterBWLOG h) - 1)
                    + sint (qV_Component1 (VqdPIout h)) \<or>
              2 ^ unat (hVqdLowPassFilterBWLOG h) dvd
                sint (qV_Component1 (VqdAvPIout h)) * (2 ^ unat (hVqdLowPassFilterBWLOG h) - 1)
                  + sint (qV_Component1 (VqdPIout h))"
      and d: "0 \<le> sint (qV_Component2 (VqdAvPIout h)) * (2 ^ unat (hVqdLowPassFilterBWLOG h) - 1)
                    + sint (qV_Component2 (VqdPIout h)) \<or>
              2 ^ unat (hVqdLowPassFilterBWLOG h) dvd
                sint (qV_Component2 (VqdAvPIout h)) * (2 ^ unat (hVqdLowPassFilterBWLOG h) - 1)
                  + sint (qV_Component2 (VqdPIout h))"
  shows "FF_DataProcess True h = FF_DataProcess False h"
proof -
  have 1: "qV_Component1 (VqdAvPIout (FF_DataProcess True h)) =
           qV_Component1 (VqdAvPIout (FF_DataProcess False h))"
    unfolding FF_DataProcess_q by (simp add: lowpass_forms [OF N q])
  have 2: "qV_Component2 (VqdAvPIout (FF_DataProcess True h)) =
           qV_Component2 (VqdAvPIout (FF_DataProcess False h))"
    unfolding FF_DataProcess_d by (simp add: lowpass_forms [OF N d])
  show ?thesis
    by (subst FF_DataProcess_form, subst (2) FF_DataProcess_form) (simp add: 1 2)
qed


text \<open>
  Claim C4, as stated, fails for a negative dividend that is not a multiple of the
  divisor: the division of C truncates towards zero and the arithmetic shift rounds
  down.  With a buffer of two speeds (shift 1) and the rolling sum -1,
  \<open>STO_CalcAvrgElSpeedDpp\<close> publishes 0 in the division form and -1 in the shift form;
  with bandwidth 4 (shift 2), input -3 and average 0, \<open>FF_DataProcess\<close> stores 0 in the
  division form and -1 in the shift form.
\<close>

theorem dual_path_forms_differ:
  "SpeedBufferSizedpp (STO_average_state (- 1)) = 2 ^ unat (SpeedBufferSizedppLOG (STO_average_state (- 1))) \<and>
   DppBufferSum (STO_CalcAvrgElSpeedDpp True (STO_average_state (- 1))) = - 1 \<and>
   hElSpeedDpp (Super (STO_CalcAvrgElSpeedDpp True (STO_average_state (- 1)))) = 0 \<and>
   hElSpeedDpp (Super (STO_CalcAvrgElSpeedDpp False (STO_average_state (- 1)))) = - 1 \<and>
   hVqdLowPassFilterBW (FF_lowpass_state 0 (- 3) 0 0) = 2 ^ unat (hVqdLowPassFilterBWLOG (FF_lowpass_state 0 (- 3) 0 0)) \<and>
   qV_Component2 (VqdAvPIout (FF_DataProcess True (FF_lowpass_state 0 (- 3) 0 0))) = 0 \<and>
   qV_Component2 (VqdAvPIout (FF_DataProcess False (FF_lowpass_state 0 (- 3) 0 0))) = - 1 \<and>
   div_or_shift True (- 1) 2 1 = 0 \<and> div_or_shift False (- 1) 2 1 = - 1"
  by (simp add: STO_eval STO_average_state_def FF_eval signed_divide_int_def)

text \<open>
  Claim C4, amended.  When the divisor is the power of two of the shift, the division
  form of a dual-path operation is the shift form plus one if the dividend is negative
  and not a multiple of the divisor, and the two forms agree for every other dividend.
  So \<open>STO_CalcAvrgElSpeedDpp\<close> gives the same handle in both forms when the size of the
  dpp buffer is the power of two of its shift and the new rolling sum is not negative or
  is a multiple of the size, and \<open>FF_DataProcess\<close> gives the same handle in both forms
  when the bandwidth is the power of two of its shift and both numerators
  \<open>V (N - 1) + v\<close> are not negative or are multiples of the bandwidth.
\<close>

theorem dual_path_forms_power_of_two:
  "(sint d = 2 ^ n \<longrightarrow>
      div_or_shift True x d n =
        div_or_shift False x d n + (if sint x < 0 \<and> \<not> 2 ^ n dvd sint x then 1 else 0)) \<and>
   (unat (SpeedBufferSizedpp h) = 2 ^ unat (SpeedBufferSizedppLOG h) \<and>
    (0 \<le> sint (DppBufferSum (STO_CalcAvrgElSpeedDpp False h)) \<or>
     2 ^ unat (SpeedBufferSizedppLOG h) dvd sint (DppBufferSum (STO_CalcAvrgElSpeedDpp False h))) \<longrightarrow>
      STO_CalcAvrgElSpeedDpp True h = STO_CalcAvrgElSpeedDpp False h) \<and>
   (uint (hVqdLowPassFilterBW f) = 2 ^ unat (hVqdLowPassFilterBWLOG f) \<and>
    (0 \<le> sint (qV_Component1 (VqdAvPIout f)) * (2 ^ unat (hVqdLowPassFilterBWLOG f) - 1)
            + sint (qV_Component1 (VqdPIout f)) \<or>
     2 ^ unat (hVqdLowPassFilterBWLOG f) dvd
       sint (qV_Component1 (VqdAvPIout f)) * (2 ^ unat (hVqdLowPassFilterBWLOG f) - 1)
         + sint (qV_Component1 (VqdPIout f))) \<and>
    (0 \<le> sint (qV_Component2 (VqdAvPIout f)) * (2 ^ unat (hVqdLowPassFilterBWLOG f) - 1)
            + sint (qV_Component2 (VqdPIout f)) \<or>
     2 ^ unat (hVqdLowPassFilterBWLOG f) dvd
       sint (qV_Component2 (VqdAvPIout f)) * (2 ^ unat (hVqdLowPassFilterBWLOG f) - 1)
         + sint (qV_Component2 (VqdPIout f))) \<longrightarrow>
      FF_DataProcess True f = FF_DataProcess False f)"
  using div_or_shift_forms [of d n x] STO_CalcAvrgElSpeedDpp_forms [of h] FF_DataProcess_forms [of f]
  by blast

lemma STO_average_state_fields:
  "unat (SpeedBufferSizedpp (STO_average_state s)) = 2"
  "unat (SpeedBufferSizedppLOG (STO_average_state s)) = 1"
  "DppBufferSum (STO_CalcAvrgElSpeedDpp False (STO_average_state s)) = scast s"
  by (simp_all add: STO_eval STO_average_state_def)

lemma FF_lowpass_state_fields:
  "uint (hVqdLowPassFilterBW (FF_lowpass_state vq vd Vq Vd)) = 4"
  "unat (hVqdLowPassFilterBWLOG (FF_lowpass_state vq vd Vq Vd)) = 2"
  "qV_Component1 (VqdAvPIout (FF_lowpass_state vq vd Vq Vd)) = Vq"
  "qV_Component2 (VqdAvPIout (FF_lowpass_state vq vd Vq Vd)) = Vd"
  "qV_Component1 (VqdPIout (FF_lowpass_state vq vd Vq Vd)) = vq"
  "qV_Component2 (VqdPIout (FF_lowpass_state vq vd Vq Vd)) = vd"
  by (simp_all add: FF_lowpass_state_def FF_zero_def)

theorem dual_path_forms_power_of_two_witness:
  "sint (4 :: int32_t) = 2 ^ 2 \<and>
   div_or_shift True (- 3) 4 2 = div_or_shift False (- 3) 4 2 + 1 \<and>
   unat (SpeedBufferSizedpp (STO_average_state 6)) = 2 ^ unat (SpeedBufferSizedppLOG (STO_average_state 6)) \<and>
   0 \<le> sint (DppBufferSum (STO_CalcAvrgElSpeedDpp False (STO_average_state 6))) \<and>
   STO_CalcAvrgElSpeedDpp True (STO_average_state 6) = STO_CalcAvrgElSpeedDpp False (STO_average_state 6) \<and>
   uint (hVqdLowPassFilterBW (FF_lowpass_state 3 5 0 1)) =
     2 ^ unat (hVqdLowPassFilterBWLOG (FF_lowpass_state 3 5 0 1)) \<and>
   0 \<le> sint (qV_Component1 (VqdAvPIout (FF_lowpass_state 3 5 0 1)))
         * (2 ^ unat (hVqdLowPassFilterBWLOG (FF_lowpass_state 3 5 0 1)) - 1)
       + sint (qV_Component1 (VqdPIout (FF_lowpass_state 3 5 0 1))) \<and>
   0 \<le> sint (qV_Component2 (VqdAvPIout (FF_lowpass_state 3 5 0 1)))
         * (2 ^ unat (hVqdLowPassFilterBWLOG (FF_lowpass_state 3 5 0 1)) - 1)
       + sint (qV_Component2 (VqdPIout (FF_lowpass_state 3 5 0 1))) \<and>
   FF_DataProcess True (FF_lowpass_state 3 5 0 1) = FF_DataProcess False (FF_lowpass_state 3 5 0 1)"
  using dual_path_forms_power_of_two [of 4 2 "- 3" "STO_average_state 6" "FF_lowpass_state 3 5 0 1"]
  by (simp add: STO_average_state_fields FF_lowpass_state_fields)

subsection \<open>The back-EMF consistency check\<close>

lemmas bemf_eval = STO_CalcAvrgMecSpeed01Hz_def STO_CalcAvrgMecSpeed01Hz_wAux_def
  SPD_IsMecSpeedReliable_accept_def STO_bemf_state_def STO_zero_def SpeednPosFdbk_zero_def
  c_div_def word_sless_alt word_sle_eq Let_def signed_divide_int_def

lemma wAux_S4: "STO_CalcAvrgMecSpeed01Hz_wAux (STO_bemf_state c) = 500"
  by (simp add: bemf_eval)

text \<open>
  Claim C7, as stated, fails for a check percentage above 64: in the scenario S4 with
  \<open>BemfConsistencyCheck = 128\<close> the threshold is negative, the observed level 0 exceeds
  it, and the call sets \<open>IsBemfConsistent\<close>.
\<close>

theorem STO_CalcAvrgMecSpeed01Hz_bemf_threshold_negative:
  "EnableDualCheck (STO_bemf_state 128) \<and>
   hBemf_alfa_est (STO_bemf_state 128) = 0 \<and> hBemf_beta_est (STO_bemf_state 128) = 0 \<and>
   MaxAppPositiveMecSpeed01Hz (STO_bemf_state 128) = 2000 \<and>
   BemfConsistencyCheck (STO_bemf_state 128) = 128 \<and>
   fst (snd (STO_CalcAvrgMecSpeed01Hz SPD_IsMecSpeedReliable_accept (STO_bemf_state 128))) = 500 \<and>
   IsBemfConsistent (snd (snd (STO_CalcAvrgMecSpeed01Hz SPD_IsMecSpeedReliable_accept (STO_bemf_state 128))))"
  by (simp add: bemf_eval)


lemma STO_CalcAvrgMecSpeed01Hz_bemf:
  assumes "EnableDualCheck h"
  shows "IsBemfConsistent (snd (snd (STO_CalcAvrgMecSpeed01Hz spd h))) =
     (let w = STO_CalcAvrgMecSpeed01Hz_wAux h; a = (if w <s 0 then - w else w);
          E = c_div (a * 32767) (scast (hMaxReliableMecSpeed01Hz (Super h)));
          Sq = c_div (E * ucast (BemfConsistencyGain h)) 64 * E
      in a <s ucast (MaxAppPositiveMecSpeed01Hz h) \<and>
         Sq - c_div Sq 64 * ucast (BemfConsistencyCheck h)
           <s scast (hBemf_alfa_est h) * scast (hBemf_alfa_est h) +
              scast (hBemf_beta_est h) * scast (hBemf_beta_est h))"
    and "Obs_Bemf_Level (snd (snd (STO_CalcAvrgMecSpeed01Hz spd h))) =
     (let w = STO_CalcAvrgMecSpeed01Hz_wAux h; a = (if w <s 0 then - w else w)
      in if a <s ucast (MaxAppPositiveMecSpeed01Hz h)
         then scast (hBemf_alfa_est h) * scast (hBemf_alfa_est h) +
              scast (hBemf_beta_est h) * scast (hBemf_beta_est h)
         else 0)"
    and "Est_Bemf_Level (snd (snd (STO_CalcAvrgMecSpeed01Hz spd h))) =
     (let w = STO_CalcAvrgMecSpeed01Hz_wAux h; a = (if w <s 0 then - w else w);
          E = c_div (a * 32767) (scast (hMaxReliableMecSpeed01Hz (Super h)))
      in if a <s ucast (MaxAppPositiveMecSpeed01Hz h)
         then c_div (E * ucast (BemfConsistencyGain h)) 64 * E
         else 0)"
  using assms
  by (simp_all add: STO_CalcAvrgMecSpeed01Hz_def STO_CalcAvrgMecSpeed01Hz_wAux_def Let_def split_beta)

lemma sint_c_div_nonneg:
  assumes "0 \<le> sint a" "0 < sint b"
  shows "sint (c_div a b) = sint a div sint b"
proof -
  have e: "sint a sdiv sint b = sint a div sint b"
    using assms by (simp add: sdiv_eq_cases)
  have "0 \<le> sint a div sint b"
    using assms by (simp add: pos_imp_zdiv_nonneg_iff)
  moreover have "sint a div sint b \<le> sint a"
  proof -
    have "sint a div sint b \<le> sint a div 1"
      using assms by (intro zdiv_mono2) auto
    then show ?thesis by simp
  qed
  ultimately show ?thesis
    using sint32_range [of a] by (intro trans [OF sint_c_div]) (auto simp: e)
qed

lemma bemf_threshold_nonneg:
  fixes a M :: int32_t and g c :: uint8_t
  assumes a: "0 \<le> sint a" "sint a \<le> sint M" and M: "0 < sint M" "sint M \<le> 32767"
      and g: "uint g \<le> 128" and c: "uint c \<le> 64"
  defines "E \<equiv> c_div (a * 32767) M"
  defines "Sq \<equiv> c_div (E * ucast g) 64 * E"
  shows "0 \<le> sint Sq" and "0 \<le> sint (Sq - c_div Sq 64 * ucast c)"
proof -
  define e where "e = (sint a * 32767) div sint M"
  define q where "q = (e * uint g) div 64"
  have n: "sint (a * 32767) = sint a * 32767"
    using a M by (intro trans [OF sint32_mult]) auto
  have E: "sint E = e"
    unfolding E_def e_def using a M n by (simp add: sint_c_div_nonneg)
  have e0: "0 \<le> e"
    unfolding e_def using a M by (simp add: pos_imp_zdiv_nonneg_iff)
  have "(sint a * 32767) div sint M \<le> (sint M * 32767) div sint M"
    using a M by (intro zdiv_mono1) auto
  then have e1: "e \<le> 32767"
    unfolding e_def using M by simp
  have g0: "0 \<le> uint g"
    by simp
  have eg: "e * uint g \<le> 32767 * 128"
    using e0 e1 g g0 by (intro mult_mono) auto
  have eg0: "0 \<le> e * uint g"
    using e0 g0 by simp
  have p: "sint (E * ucast g) = e * uint g"
    using eg eg0 by (intro trans [OF sint32_mult]) (auto simp: E sint_ucast_8_32)
  have Q: "sint (c_div (E * ucast g) 64) = q"
    unfolding q_def using eg0 p by (simp add: sint_c_div_nonneg)
  have q0: "0 \<le> q"
    unfolding q_def using eg0 by simp
  have "(e * uint g) div 64 \<le> (32767 * 128) div 64"
    using eg by (intro zdiv_mono1) auto
  then have q1: "q \<le> 65534"
    unfolding q_def by simp
  have qe: "q * e \<le> 65534 * 32767"
    using q0 q1 e0 e1 by (intro mult_mono) auto
  have qe0: "0 \<le> q * e"
    using q0 e0 by simp
  have S: "sint Sq = q * e"
    unfolding Sq_def using qe qe0 by (intro trans [OF sint32_mult]) (auto simp: E Q)
  show "0 \<le> sint Sq"
    using S qe0 by simp
  define t where "t = (q * e) div 64"
  have T: "sint (c_div Sq 64) = t"
    unfolding t_def using S qe0 by (simp add: sint_c_div_nonneg)
  have t0: "0 \<le> t"
    unfolding t_def using qe0 by simp
  have "q * e = t * 64 + (q * e) mod 64"
    unfolding t_def by simp
  moreover have "0 \<le> (q * e) mod 64"
    by simp
  ultimately have t1: "t * 64 \<le> q * e"
    by linarith
  have "t * uint c \<le> t * 64"
    using t0 c by (intro mult_left_mono) auto
  then have tc: "t * uint c \<le> q * e"
    using t1 by simp
  have tc0: "0 \<le> t * uint c"
    using t0 by simp
  have m: "sint (c_div Sq 64 * ucast c) = t * uint c"
    using tc tc0 qe by (intro trans [OF sint32_mult]) (auto simp: T sint_ucast_8_32)
  have "sint (Sq - c_div Sq 64 * ucast c) = q * e - t * uint c"
    using tc tc0 qe qe0 by (intro trans [OF sint32_diff]) (auto simp: S m)
  then show "0 \<le> sint (Sq - c_div Sq 64 * ucast c)"
    using tc by simp
qed

lemma sint32_minus:
  "- 2147483647 \<le> sint a \<Longrightarrow> sint (- a :: 32 word) = - sint a"
  using sint32_range [of a] by (simp add: sint_word_ariths signed_take_bit_int_eq_self)

lemma STO_CalcAvrgMecSpeed01Hz_speed:
  "fst (snd (STO_CalcAvrgMecSpeed01Hz spd h)) = scast (STO_CalcAvrgMecSpeed01Hz_wAux h)"
  by (simp add: STO_CalcAvrgMecSpeed01Hz_def STO_CalcAvrgMecSpeed01Hz_wAux_def Let_def split_beta)

text \<open>
  Claim C7, amended.  For every state in which the dual check is enabled, both stored
  back-EMF estimates are zero, the maximum reliable speed is positive as a signed 16-bit
  value, the magnitude of the computed mechanical speed is at most that maximum, the
  gain is at most 128 and the check percentage at most 64, \<open>STO_CalcAvrgMecSpeed01Hz\<close>
  clears \<open>IsBemfConsistent\<close>: the observed level is 0, the estimated level is not
  negative, and the threshold is not negative (it can be 0).  The speed written through
  \<open>pMecSpeed01Hz\<close> is the 32-bit speed narrowed to 16 bits.
\<close>

theorem STO_CalcAvrgMecSpeed01Hz_bemf_inconsistent:
  assumes en: "EnableDualCheck h"
      and z: "hBemf_alfa_est h = 0" "hBemf_beta_est h = 0"
      and M: "0 < sint (hMaxReliableMecSpeed01Hz (Super h))"
      and w: "\<bar>sint (STO_CalcAvrgMecSpeed01Hz_wAux h)\<bar> \<le> sint (hMaxReliableMecSpeed01Hz (Super h))"
      and g: "uint (BemfConsistencyGain h) \<le> 128"
      and c: "uint (BemfConsistencyCheck h) \<le> 64"
  shows "fst (snd (STO_CalcAvrgMecSpeed01Hz spd h)) = scast (STO_CalcAvrgMecSpeed01Hz_wAux h) \<and>
         \<not> IsBemfConsistent (snd (snd (STO_CalcAvrgMecSpeed01Hz spd h))) \<and>
         Obs_Bemf_Level (snd (snd (STO_CalcAvrgMecSpeed01Hz spd h))) = 0 \<and>
         0 \<le> sint (Est_Bemf_Level (snd (snd (STO_CalcAvrgMecSpeed01Hz spd h))))"
proof -
  define wAux where "wAux = STO_CalcAvrgMecSpeed01Hz_wAux h"
  define a where "a = (if wAux <s 0 then - wAux else wAux)"
  define Mw :: int32_t where "Mw = scast (hMaxReliableMecSpeed01Hz (Super h))"
  define E where "E = c_div (a * 32767) Mw"
  define Sq where "Sq = c_div (E * ucast (BemfConsistencyGain h)) 64 * E"
  have Mv: "sint Mw = sint (hMaxReliableMecSpeed01Hz (Super h))"
    unfolding Mw_def by (rule sint_scast_16_32)
  have M1: "sint Mw \<le> 32767"
    unfolding Mv using sint16_range [of "hMaxReliableMecSpeed01Hz (Super h)"] by simp
  have M0: "0 < sint Mw"
    unfolding Mv by (rule M)
  have wb: "\<bar>sint wAux\<bar> \<le> sint Mw"
    unfolding Mv wAux_def by (rule w)
  have av: "sint a = \<bar>sint wAux\<bar>"
  proof (cases "wAux <s 0")
    case True
    then have "sint wAux < 0"
      by (simp add: word_sless_alt)
    moreover have "sint (- wAux) = - sint wAux"
      using wb M1 by (intro sint32_minus) auto
    ultimately show ?thesis
      using True by (simp add: a_def)
  next
    case False
    then have "0 \<le> sint wAux"
      by (simp add: word_sless_alt)
    then show ?thesis
      using False by (simp add: a_def)
  qed
  have a0: "0 \<le> sint a" and a1: "sint a \<le> sint Mw"
    using av wb by auto
  have S0: "0 \<le> sint Sq"
    unfolding Sq_def E_def by (rule bemf_threshold_nonneg(1) [OF a0 a1 M0 M1 g c])
  have L0: "0 \<le> sint (Sq - c_div Sq 64 * ucast (BemfConsistencyCheck h))"
    unfolding Sq_def E_def by (rule bemf_threshold_nonneg(2) [OF a0 a1 M0 M1 g c])
  have "IsBemfConsistent (snd (snd (STO_CalcAvrgMecSpeed01Hz spd h))) =
          (a <s ucast (MaxAppPositiveMecSpeed01Hz h) \<and>
           Sq - c_div Sq 64 * ucast (BemfConsistencyCheck h) <s 0)"
    unfolding STO_CalcAvrgMecSpeed01Hz_bemf(1) [OF en] Let_def
    by (simp add: z a_def wAux_def Sq_def E_def Mw_def)
  then have b: "\<not> IsBemfConsistent (snd (snd (STO_CalcAvrgMecSpeed01Hz spd h)))"
    using L0 by (simp add: word_sless_alt)
  have o: "Obs_Bemf_Level (snd (snd (STO_CalcAvrgMecSpeed01Hz spd h))) = 0"
    unfolding STO_CalcAvrgMecSpeed01Hz_bemf(2) [OF en] Let_def by (simp add: z)
  have "Est_Bemf_Level (snd (snd (STO_CalcAvrgMecSpeed01Hz spd h))) =
          (if a <s ucast (MaxAppPositiveMecSpeed01Hz h) then Sq else 0)"
    unfolding STO_CalcAvrgMecSpeed01Hz_bemf(3) [OF en] Let_def
    by (simp add: a_def wAux_def Sq_def E_def Mw_def)
  then have e: "0 \<le> sint (Est_Bemf_Level (snd (snd (STO_CalcAvrgMecSpeed01Hz spd h))))"
    using S0 by simp
  show ?thesis
    using b o e by (simp add: STO_CalcAvrgMecSpeed01Hz_speed)
qed

lemma STO_bemf_state_fields:
  "EnableDualCheck (STO_bemf_state c)"
  "hBemf_alfa_est (STO_bemf_state c) = 0"
  "hBemf_beta_est (STO_bemf_state c) = 0"
  "hMaxReliableMecSpeed01Hz (Super (STO_bemf_state c)) = 1000"
  "BemfConsistencyGain (STO_bemf_state c) = 64"
  "BemfConsistencyCheck (STO_bemf_state c) = c"
  by (simp_all add: STO_bemf_state_def STO_zero_def SpeednPosFdbk_zero_def)

theorem STO_CalcAvrgMecSpeed01Hz_bemf_inconsistent_witness:
  "EnableDualCheck (STO_bemf_state 32) \<and>
   hBemf_alfa_est (STO_bemf_state 32) = 0 \<and> hBemf_beta_est (STO_bemf_state 32) = 0 \<and>
   sint (hMaxReliableMecSpeed01Hz (Super (STO_bemf_state 32))) = 1000 \<and>
   sint (STO_CalcAvrgMecSpeed01Hz_wAux (STO_bemf_state 32)) = 500 \<and>
   uint (BemfConsistencyGain (STO_bemf_state 32)) = 64 \<and>
   uint (BemfConsistencyCheck (STO_bemf_state 32)) = 32 \<and>
   fst (snd (STO_CalcAvrgMecSpeed01Hz SPD_IsMecSpeedReliable_accept (STO_bemf_state 32))) = 500 \<and>
   \<not> IsBemfConsistent (snd (snd (STO_CalcAvrgMecSpeed01Hz SPD_IsMecSpeedReliable_accept (STO_bemf_state 32))))"
  using STO_CalcAvrgMecSpeed01Hz_bemf_inconsistent [of "STO_bemf_state 32" SPD_IsMecSpeedReliable_accept]
  by (simp add: STO_bemf_state_fields wAux_S4)

subsection \<open>The convergence detector\<close>

text \<open>
  Claim C3 at the start-up scenario S3 with a forced speed of 100 and the consistency
  counter at 5.  With an estimated speed of -100 the product of the two speeds is not
  positive: the detector returns false and leaves the handle as it is, the counter
  still 5.  With an estimated speed of 10, below the minimum valid speed, the detector
  resets the counter to 0; with an estimated speed of 100 it increments the counter.
\<close>

theorem STO_IsObserverConverged_sign_mismatch:
  "STO_IsObserverConverged (STO_startup_state (- 100) 5) 100 = (False, STO_startup_state (- 100) 5) \<and>
   ConsistencyCounter (snd (STO_IsObserverConverged (STO_startup_state (- 100) 5) 100)) = 5 \<and>
   ConsistencyCounter (snd (STO_IsObserverConverged (STO_startup_state 10 5) 100)) = 0 \<and>
   ConsistencyCounter (snd (STO_IsObserverConverged (STO_startup_state 100 5) 100)) = 6"
  by (simp add: STO_eval)


subsection \<open>Feed-forward accessors and the bus-sensor handle\<close>

text \<open>
  Claim C8.  The feed-forward voltage computed by \<open>FF_VqdffComputation\<close> does not depend
  on the bus-sensor handle stored by \<open>FF_Init\<close>: two handles that differ only in
  \<open>pBus_Sensor\<close> give, under the same \<open>pBusSensorM1\<close>, results that differ only in
  \<open>pBus_Sensor\<close>, hence the same \<open>Vqdff\<close>; the bus voltage is read through
  \<open>pBusSensorM1\<close>.
\<close>

theorem FF_VqdffComputation_ignores_pBus_Sensor:
  "FF_VqdffComputation vbs spd g (h\<lparr>pBus_Sensor := b\<rparr>) Iqdref pSTC =
     (FF_VqdffComputation vbs spd g h Iqdref pSTC)\<lparr>pBus_Sensor := b\<rparr> \<and>
   Vqdff (FF_VqdffComputation vbs spd g (h\<lparr>pBus_Sensor := b\<rparr>) Iqdref pSTC) =
     Vqdff (FF_VqdffComputation vbs spd g h Iqdref pSTC) \<and>
   Vqdff (FF_VqdffComputation vbs spd g (FF_Init h b1 pd pq) Iqdref pSTC) =
     Vqdff (FF_VqdffComputation vbs spd g (FF_Init h b2 pd pq) Iqdref pSTC)"
  by (simp add: FF_VqdffComputation_def FF_Init_def Let_def)

text \<open>
  Claim C9.  For every feed-forward handle, \<open>FF_GetVqdAvPIout\<close> returns the
  feed-forward pair \<open>Vqdff\<close>, as \<open>FF_GetVqdff\<close> does, whatever the averaged PI output
  \<open>VqdAvPIout\<close> holds.
\<close>

theorem FF_GetVqdAvPIout_returns_Vqdff:
  "FF_GetVqdAvPIout h = Vqdff h \<and>
   FF_GetVqdAvPIout h = FF_GetVqdff h \<and>
   FF_GetVqdAvPIout (h\<lparr>Vqdff := a, VqdAvPIout := b\<rparr>) = a"
  by (simp add: FF_GetVqdAvPIout_def FF_GetVqdff_def)

subsection \<open>Observer gains\<close>

text \<open>
  Claim C10.  \<open>STO_SetObserverGains\<close> with arguments \<open>g1\<close> and \<open>g2\<close> writes \<open>g1\<close> into
  \<open>hC2\<close> and \<open>g2\<close> into \<open>hC4\<close> and changes no other field: the gains \<open>hC1\<close>, \<open>hC3\<close>,
  \<open>hC5\<close>, \<open>hC6\<close>, the scaling factors and the estimates keep their values, and
  \<open>STO_GetObserverGains\<close> then returns \<open>(g1, g2)\<close>.
\<close>

theorem STO_SetObserverGains_frame:
  "STO_SetObserverGains h g1 g2 = h\<lparr>hC2 := g1, hC4 := g2\<rparr> \<and>
   hC2 (STO_SetObserverGains h g1 g2) = g1 \<and>
   hC4 (STO_SetObserverGains h g1 g2) = g2 \<and>
   hC1 (STO_SetObserverGains h g1 g2) = hC1 h \<and>
   hC3 (STO_SetObserverGains h g1 g2) = hC3 h \<and>
   hC5 (STO_SetObserverGains h g1 g2) = hC5 h \<and>
   hC6 (STO_SetObserverGains h g1 g2) = hC6 h \<and>
   hF1 (STO_SetObserverGains h g1 g2) = hF1 h \<and>
   hF2 (STO_SetObserverGains h g1 g2) = hF2 h \<and>
   hF3 (STO_SetObserverGains h g1 g2) = hF3 h \<and>
   Ialfa_est (STO_SetObserverGains h g1 g2) = Ialfa_est h \<and>
   Ibeta_est (STO_SetObserverGains h g1 g2) = Ibeta_est h \<and>
   wBemf_alfa_est (STO_SetObserverGains h g1 g2) = wBemf_alfa_est h \<and>
   wBemf_beta_est (STO_SetObserverGains h g1 g2) = wBemf_beta_est h \<and>
   Super (STO_SetObserverGains h g1 g2) = Super h \<and>
   STO_GetObserverGains (STO_SetObserverGains h g1 g2) = (g1, g2)"
  by (simp add: STO_SetObserverGains_def STO_GetObserverGains_def)

end
